theory Spec2Isabelle
  imports Main "HOL-Library.Word"
begin

section \<open>ZFS statistics collection (mod-system/zfs\_linux.go)\<close>

text \<open>
  A shallow embedding of the ZFS collector of nagopher-checks. Go strings are byte
  strings (\<^typ>\<open>string\<close>), unsigned 64-bit counters are \<^typ>\<open>64 word\<close>, the Go
  map of pools is a partial function, a nil map is \<open>None\<close>. Go errors are values of
  the datatype \<open>error\<close>, one constructor for each message format of the source, and an
  index-out-of-range panic of the Go runtime is an outcome of its own.

  The functions of the Go standard library that the source calls are modelled from their
  documented behaviour (subsection by subsection below). Strings are decoded as UTF-8 the
  way Go does it, white space is that of \<open>unicode.IsSpace\<close>, and the upper-case mapping
  of the code points beyond ASCII, which package \<open>unicode\<close> takes from the case table
  of its Unicode version, is a parameter of every function that reaches
  \<open>strings.ToUpper\<close>. The operating system is a parameter too: a record of what
  \<open>filepath.Glob\<close> and \<open>os.Open\<close> answer.
\<close>

subsection \<open>Package unicode/utf8\<close>

definition LF :: char where "LF = CHR 0x0A"
definition CR :: char where "CR = CHR 0x0D"

definition RuneError :: nat where "RuneError = 0xFFFD"

text \<open>
  \<open>utf8.DecodeRuneInString\<close>, which is also how \<open>range\<close> walks a string: the code
  point at the start of the bytes and its width. A first byte below \<open>0x80\<close> is itself;
  the first bytes \<open>0xC2\<close> to \<open>0xF4\<close> start a sequence of two, three or four bytes, whose
  second byte has to lie in the range of that first byte (no overlong form, nothing in
  \<open>U+D800\<close> to \<open>U+DFFF\<close>, nothing beyond \<open>U+10FFFF\<close>) and whose other bytes in \<open>0x80\<close> to \<open>0xBF\<close>; every
  other case is \<open>RuneError\<close> with width 1.
\<close>

fun DecodeRune :: "string \<Rightarrow> nat \<times> nat" where
  "DecodeRune [] = (RuneError, 0)"
| "DecodeRune (c # cs) =
     (let s0 = (of_char c :: nat) in
      if s0 < 0x80 then (s0, 1)
      else if s0 < 0xC2 \<or> 0xF4 < s0 then (RuneError, 1)
      else
        let sz = (if s0 < 0xE0 then 2 else if s0 < 0xF0 then 3 else 4 :: nat);
            lo = (if s0 = 0xE0 then 0xA0 else if s0 = 0xF0 then 0x90 else 0x80 :: nat);
            hi = (if s0 = 0xED then 0x9F else if s0 = 0xF4 then 0x8F else 0xBF :: nat)
        in
        if length (c # cs) < sz then (RuneError, 1)
        else
          let s1 = (of_char (cs ! 0) :: nat) in
          if s1 < lo \<or> hi < s1 then (RuneError, 1)
          else if sz \<le> 2 then ((s0 mod 32) * 64 + s1 mod 64, 2)
          else
            let s2 = (of_char (cs ! 1) :: nat) in
            if s2 < 0x80 \<or> 0xBF < s2 then (RuneError, 1)
            else if sz \<le> 3 then ((s0 mod 16) * 4096 + (s1 mod 64) * 64 + s2 mod 64, 3)
            else
              let s3 = (of_char (cs ! 2) :: nat) in
              if s3 < 0x80 \<or> 0xBF < s3 then (RuneError, 1)
              else ((s0 mod 8) * 262144 + (s1 mod 64) * 4096 + (s2 mod 64) * 64
                      + s3 mod 64, 4))"

text \<open>
  The code points of a string in order, each with the bytes it was decoded from;
  \<open>skip\<close> counts the bytes that still belong to the code point before.
\<close>

fun runesFrom :: "nat \<Rightarrow> string \<Rightarrow> (nat \<times> string) list" where
  "runesFrom skip [] = []"
| "runesFrom skip (c # cs) =
     (if 0 < skip then runesFrom (skip - 1) cs
      else (fst (DecodeRune (c # cs)), take (snd (DecodeRune (c # cs))) (c # cs))
             # runesFrom (snd (DecodeRune (c # cs)) - 1) cs)"

definition runes :: "string \<Rightarrow> (nat \<times> string) list" where
  "runes s = runesFrom 0 s"

text \<open>
  \<open>utf8.AppendRune\<close>: the bytes of a code point; a value in \<open>U+D800\<close> to \<open>U+DFFF\<close> and one beyond
  \<open>U+10FFFF\<close> are written as \<open>U+FFFD\<close>.
\<close>

definition EncodeRune :: "nat \<Rightarrow> string" where
  "EncodeRune r =
     (if r < 0x80 then [char_of r]
      else if r < 0x800 then [char_of (0xC0 + r div 64), char_of (0x80 + r mod 64)]
      else if 0x10FFFF < r \<or> (0xD800 \<le> r \<and> r \<le> 0xDFFF) then [CHR 0xEF, CHR 0xBF, CHR 0xBD]
      else if r < 0x10000
        then [char_of (0xE0 + r div 4096), char_of (0x80 + (r div 64) mod 64),
              char_of (0x80 + r mod 64)]
      else [char_of (0xF0 + r div 262144), char_of (0x80 + (r div 4096) mod 64),
            char_of (0x80 + (r div 64) mod 64), char_of (0x80 + r mod 64)])"

subsection \<open>Packages unicode and strings\<close>

text \<open>
  \<open>unicode.IsSpace\<close>: tab, line feed, vertical tab, form feed, carriage return, space,
  \<open>U+0085\<close>, \<open>U+00A0\<close>, and beyond Latin-1 the code points with the property
  White\_Space.
\<close>

definition IsSpace :: "nat \<Rightarrow> bool" where
  "IsSpace r =
     (r \<in> set [0x09, 0x0A, 0x0B, 0x0C, 0x0D, 0x20, 0x85, 0xA0, 0x1680, 0x2028, 0x2029,
               0x202F, 0x205F, 0x3000]
      \<or> (0x2000 \<le> r \<and> r \<le> 0x200A))"

text \<open>
  \<open>strings.Fields\<close>: the maximal runs of code points that are no white space, in order,
  each as the bytes it was decoded from.
\<close>

function fieldSpans :: "(nat \<times> string) list \<Rightarrow> string list" where
  "fieldSpans [] = []"
| "fieldSpans (x # xs) =
     (if IsSpace (fst x) then fieldSpans xs
      else concat (map snd (x # takeWhile (\<lambda>y. \<not> IsSpace (fst y)) xs))
             # fieldSpans (dropWhile (\<lambda>y. \<not> IsSpace (fst y)) xs))"
  by pat_completeness auto
termination
  by (relation "measure length") (auto simp: length_dropWhile_le less_Suc_eq_le)

definition Fields :: "string \<Rightarrow> string list" where
  "Fields s = fieldSpans (runes s)"

text \<open>\<open>strings.TrimSpace\<close>: the white space at the start and at the end removed.\<close>

definition TrimSpace :: "string \<Rightarrow> string" where
  "TrimSpace s =
     concat (map snd (rev (dropWhile (\<lambda>x. IsSpace (fst x))
                        (rev (dropWhile (\<lambda>x. IsSpace (fst x)) (runes s))))))"

text \<open>
  \<open>unicode.ToUpper\<close>: an ASCII letter is mapped by arithmetic, every other code point
  by the case table of the package, here the parameter \<open>caseTable\<close>.
\<close>

definition upperRune :: "(nat \<Rightarrow> nat) \<Rightarrow> nat \<Rightarrow> nat" where
  "upperRune caseTable r =
     (if r \<le> 0x7F then (if 0x61 \<le> r \<and> r \<le> 0x7A then r - 0x20 else r) else caseTable r)"

text \<open>
  \<open>strings.Map\<close>: the bytes are copied up to the first code point that the mapping
  changes or that is an invalid byte; from there on (\<open>written\<close>) every code point is
  mapped and encoded anew, an invalid byte as \<open>U+FFFD\<close>.
\<close>

fun mapRunes :: "(nat \<Rightarrow> nat) \<Rightarrow> bool \<Rightarrow> (nat \<times> string) list \<Rightarrow> string" where
  "mapRunes mapping written [] = []"
| "mapRunes mapping written (x # xs) =
     (if written \<or> mapping (fst x) \<noteq> fst x \<or> (fst x = RuneError \<and> length (snd x) = 1)
      then EncodeRune (mapping (fst x)) @ mapRunes mapping True xs
      else snd x @ mapRunes mapping False xs)"

text \<open>\<open>strings.ToUpper\<close>: every code point mapped to its upper case.\<close>

definition ToUpper :: "(nat \<Rightarrow> nat) \<Rightarrow> string \<Rightarrow> string" where
  "ToUpper caseTable s = mapRunes (upperRune caseTable) False (runes s)"

text \<open>The paths that package \<open>strings\<close> takes for a string of ASCII bytes only: the table
  \<open>asciiSpace\<close>, the two loops of \<open>TrimSpace\<close> over the bytes at the start and at the
  end, and the loop of \<open>ToUpper\<close> that subtracts \<open>'a' - 'A'\<close> from the bytes \<open>a\<close> to
  \<open>z\<close>.\<close>

definition asciiSpace :: "char \<Rightarrow> bool" where
  "asciiSpace c = ((of_char c :: nat) \<in> set [0x09, 0x0A, 0x0B, 0x0C, 0x0D, 0x20])"

definition trimASCII :: "string \<Rightarrow> string" where
  "trimASCII s = rev (dropWhile asciiSpace (rev (dropWhile asciiSpace s)))"

definition asciiUpper :: "char \<Rightarrow> char" where
  "asciiUpper c =
     (if 0x61 \<le> (of_char c :: nat) \<and> (of_char c :: nat) \<le> 0x7A
      then char_of ((of_char c :: nat) - 0x20) else c)"

definition upperASCII :: "string \<Rightarrow> string" where
  "upperASCII s = map asciiUpper s"

subsection \<open>Package strconv\<close>

datatype numError = ErrSyntax | ErrRange

definition digitOf :: "char \<Rightarrow> nat option" where
  "digitOf c = map_of (zip ''0123456789'' [0, 1, 2, 3, 4, 5, 6, 7, 8, 9]) c"

definition maxUint64 :: nat where "maxUint64 = 2 ^ 64 - 1"

text \<open>
  The digit loop of \<open>strconv.ParseUint(s, 10, 64)\<close>: a byte that is no decimal digit is a
  syntax error, a value beyond \<open>2^64 - 1\<close> a range error, whichever the loop meets first.
  With an explicit base 10 neither a sign nor an underscore is accepted.
\<close>

fun parseDigits :: "nat \<Rightarrow> string \<Rightarrow> numError + nat" where
  "parseDigits n [] = Inr n"
| "parseDigits n (c # cs) =
     (case digitOf c of
        None \<Rightarrow> Inl ErrSyntax
      | Some d \<Rightarrow>
          if n \<ge> maxUint64 div 10 + 1 then Inl ErrRange
          else if n * 10 + d > maxUint64 then Inl ErrRange
          else parseDigits (n * 10 + d) cs)"

definition ParseUint :: "string \<Rightarrow> numError + 64 word" where
  "ParseUint s =
     (if s = [] then Inl ErrSyntax
      else case parseDigits 0 s of Inl e \<Rightarrow> Inl e | Inr n \<Rightarrow> Inr (word_of_nat n))"

subsection \<open>Package path/filepath (Unix)\<close>

definition sep :: char where "sep = CHR ''/''"

fun splitSep :: "string \<Rightarrow> string list" where
  "splitSep [] = [[]]"
| "splitSep (c # cs) =
     (if c = sep then [] # splitSep cs
      else (case splitSep cs of [] \<Rightarrow> [[c]] | w # ws \<Rightarrow> (c # w) # ws))"

fun joinSep :: "string list \<Rightarrow> string" where
  "joinSep [] = []"
| "joinSep [x] = x"
| "joinSep (x # y # ys) = x @ sep # joinSep (y # ys)"

text \<open>
  The elements of a cleaned path, kept on a stack (last element first): empty elements
  and \<open>.\<close> vanish, \<open>..\<close> removes the element before it, is dropped at the root and is
  kept at the start of a relative path.
\<close>

fun cleanElems :: "bool \<Rightarrow> string list \<Rightarrow> string list \<Rightarrow> string list" where
  "cleanElems rooted acc [] = rev acc"
| "cleanElems rooted acc (e # es) =
     (if e = [] \<or> e = ''.'' then cleanElems rooted acc es
      else if e = ''..'' then
        (case acc of
           [] \<Rightarrow> if rooted then cleanElems rooted [] es else cleanElems rooted [''..''] es
         | a # as \<Rightarrow> if a = ''..'' then cleanElems rooted (e # acc) es
                     else cleanElems rooted as es)
      else cleanElems rooted (e # acc) es)"

definition Clean :: "string \<Rightarrow> string" where
  "Clean p =
     (let rooted = (take 1 p = [sep]);
          out = (if rooted then [sep] else []) @ joinSep (cleanElems rooted [] (splitSep p))
      in if out = [] then ''.'' else out)"

text \<open>\<open>filepath.Join\<close>: from the first non-empty element on, joined with the separator and cleaned.\<close>

definition Join :: "string list \<Rightarrow> string" where
  "Join elem =
     (case dropWhile (\<lambda>e. e = []) elem of [] \<Rightarrow> [] | es \<Rightarrow> Clean (joinSep es))"

text \<open>\<open>filepath.Dir\<close>: all but the last element, cleaned.\<close>

definition Dir :: "string \<Rightarrow> string" where
  "Dir p = Clean (rev (dropWhile (\<lambda>c. c \<noteq> sep) (rev p)))"

text \<open>\<open>filepath.Base\<close>: the last element, trailing separators removed first.\<close>

definition Base :: "string \<Rightarrow> string" where
  "Base p =
     (if p = [] then ''.''
      else let q = dropWhile (\<lambda>c. c = sep) (rev p);
               b = rev (takeWhile (\<lambda>c. c \<noteq> sep) q)
           in if b = [] then [sep] else b)"

subsection \<open>Readers and package bufio\<close>

text \<open>
  An \<open>io.Reader\<close> is the bytes it delivers and the way it ends: \<open>None\<close> for \<open>io.EOF\<close>,
  \<open>Some msg\<close> for another read error.
\<close>

datatype reader = Reader (content: string) (failure: "string option")

text \<open>The raw lines of a byte string: split at line feeds, a last unterminated line kept if not empty.\<close>

function rawLines :: "string \<Rightarrow> string list" where
  "rawLines [] = []"
| "rawLines (c # cs) =
     takeWhile (\<lambda>x. x \<noteq> LF) (c # cs) # rawLines (drop 1 (dropWhile (\<lambda>x. x \<noteq> LF) (c # cs)))"
  by pat_completeness auto
termination
proof (relation "measure length")
  show "wf (measure length)" by simp
next
  fix c :: char and cs :: string
  have "length (dropWhile (\<lambda>x. x \<noteq> LF) (c # cs)) \<le> Suc (length cs)"
    using length_dropWhile_le [of "\<lambda>x. x \<noteq> LF" "c # cs"] by simp
  then have "length (drop 1 (dropWhile (\<lambda>x. x \<noteq> LF) (c # cs))) < Suc (length cs)"
    unfolding length_drop by arith
  then show "(drop 1 (dropWhile (\<lambda>x. x \<noteq> LF) (c # cs)), c # cs) \<in> measure length"
    by simp
qed

definition dropCR :: "string \<Rightarrow> string" where
  "dropCR l = (if l \<noteq> [] \<and> last l = CR then butlast l else l)"

definition MaxScanTokenSize :: nat where "MaxScanTokenSize = 64 * 1024"

text \<open>
  A \<open>bufio.Scanner\<close> with the default split function \<open>ScanLines\<close> and the default
  buffer: \<open>scanTokens\<close> are the texts for which \<open>Scan\<close> returns true, in order, and
  \<open>scanErr\<close> is what \<open>Err\<close> returns once \<open>Scan\<close> has returned false. A line that does
  not fit the buffer ends the scan with \<open>ErrTooLong\<close>; the end of the file is no error.
\<close>

definition scanTokens :: "reader \<Rightarrow> string list" where
  "scanTokens rd = map dropCR (takeWhile (\<lambda>l. length l < MaxScanTokenSize) (rawLines (content rd)))"

definition ErrTooLong :: string where "ErrTooLong = ''bufio.Scanner: token too long''"

definition scanErr :: "reader \<Rightarrow> string option" where
  "scanErr rd =
     (if \<exists>l \<in> set (rawLines (content rd)). \<not> length l < MaxScanTokenSize then Some ErrTooLong
      else failure rd)"

subsection \<open>The operating system\<close>

text \<open>
  What the file system answers in one collection pass: \<open>fsGlob\<close> gives for a pattern
  either the error of a malformed pattern or the matching paths, \<open>fsOpen\<close> gives for a
  path either the message of the error of \<open>os.Open\<close> or the stream of the opened file.
\<close>

record filesystem =
  fsGlob :: "string \<Rightarrow> string + string list"
  fsOpen :: "string \<Rightarrow> string + reader"

text \<open>
  \<open>filepath.Glob\<close> returns the names of all files matching the pattern, or nil if there
  is no matching file: a slice that is empty and not nil is never returned.
\<close>

definition Glob :: "filesystem \<Rightarrow> string \<Rightarrow> string + string list option" where
  "Glob fs pattern =
     (case fsGlob fs pattern of
        Inl e \<Rightarrow> Inl e
      | Inr [] \<Rightarrow> Inr None
      | Inr (m # ms) \<Rightarrow> Inr (Some (m # ms)))"

subsection \<open>Data model\<close>

record zfsGlobalStats =
  arcSize :: "64 word"
  arcHits :: "64 word"
  arcMisses :: "64 word"

record zfsPoolIOStats =
  readCount :: "64 word"
  writeCount :: "64 word"
  bytesRead :: "64 word"
  bytesWritten :: "64 word"

record zfsPoolStats =
  state :: string
  io :: zfsPoolIOStats

record zfsResource =
  globalStats :: zfsGlobalStats
  poolStats :: "(string \<rightharpoonup> zfsPoolStats) option"

text \<open>The zero values of Go for the two pool records.\<close>

definition zeroPoolIOStats :: zfsPoolIOStats where
  "zeroPoolIOStats = \<lparr>readCount = 0, writeCount = 0, bytesRead = 0, bytesWritten = 0\<rparr>"

definition zeroPoolStats :: zfsPoolStats where
  "zeroPoolStats = \<lparr>state = [], io = zeroPoolIOStats\<rparr>"

text \<open>
  The errors of the source, one constructor for each message:
  \<^item> \<open>NoGlobalStats\<close>: no global statistics have been parsed
  \<^item> \<open>GlobFailed e\<close>: could not glob zfs pool paths: e
  \<^item> \<open>GatherPoolFailed e\<close>: could not gather zfs pool statistics: e
  \<^item> \<open>OpenStateFailed e\<close>: could not open state file: e
  \<^item> \<open>OpenIOFailed e\<close>: could not open i/o stats file: e
  \<^item> \<open>GatherStateFailed e\<close>: could not gather state: e
  \<^item> \<open>GatherIOFailed e\<close>: could not gather i/o stats: e
  \<^item> \<open>StateReadFailed e\<close>: could not read state: e
  \<^item> \<open>ParseColumnFailed key text e\<close>: could not parse unsigned integer for key: e,
    where e is the error of \<open>strconv.ParseUint\<close> on text
\<close>

datatype error =
    NoGlobalStats
  | GlobFailed string
  | GatherPoolFailed error
  | OpenStateFailed string
  | OpenIOFailed string
  | GatherStateFailed error
  | GatherIOFailed error
  | StateReadFailed string
  | ParseColumnFailed string string numError

text \<open>
  The error of an empty state file is made with the fixed text "could not read state: EOF":
  it is the error of a read that failed with the text EOF.
\<close>

definition StateEOF :: error where
  "StateEOF = StateReadFailed ''EOF''"

text \<open>
  The warnings added to the collection of the caller:
  \<^item> \<open>ParseArcWarning e\<close>: could not parse arc statistics: e
  \<^item> \<open>GatherArcWarning e\<close>: could not gather arc statistics: e
  \<^item> \<open>MetricWarning key text\<close>: could not parse metric [key] as uint64: text
\<close>

datatype warning =
    ParseArcWarning error
  | GatherArcWarning string
  | MetricWarning string string

text \<open>
  A call either returns or panics; \<open>Panic i n\<close> is the runtime error
  "index out of range [i] with length n". Nothing in the source recovers from it.
\<close>

datatype 'a outcome = Return 'a | Panic nat nat

subsection \<open>Constants\<close>

definition zfsProcBasePath :: string where "zfsProcBasePath = ''/proc/spl/kstat/zfs''"
definition zfsProcArcStats :: string where "zfsProcArcStats = ''arcstats''"
definition zfsPoolPathPattern :: string where "zfsPoolPathPattern = ''/*/io''"
definition zfsTypeUint64 :: string where "zfsTypeUint64 = ''4''"

subsection \<open>parseGlobalStats\<close>

text \<open>
  One round of the scanning loop on the text of one line. The state of the loop is
  \<open>skipParsing\<close>, the map of metrics and the warnings collected so far.
\<close>

definition globalStep ::
  "bool \<times> (string \<rightharpoonup> 64 word) \<times> warning list \<Rightarrow> string
     \<Rightarrow> bool \<times> (string \<rightharpoonup> 64 word) \<times> warning list" where
  "globalStep st line =
     (case st of (skipParsing, metrics, warnings) \<Rightarrow>
        let parts = Fields line in
        if skipParsing \<and> length parts = 3 \<and> parts ! 0 = ''name'' \<and> parts ! 1 = ''type''
             \<and> parts ! 2 = ''data''
        then (False, metrics, warnings)
        else if skipParsing \<or> length parts < 3 then (skipParsing, metrics, warnings)
        else
          let metricKey = parts ! 0; metricType = parts ! 1; metricValue = parts ! 2 in
          if metricType = zfsTypeUint64 then
            (case ParseUint metricValue of
               Inl err \<Rightarrow> (skipParsing, metrics, warnings @ [MetricWarning metricKey metricValue])
             | Inr v \<Rightarrow> (skipParsing, metrics(metricKey \<mapsto> v), warnings))
          else (skipParsing, metrics, warnings))"

fun globalLoop ::
  "bool \<times> (string \<rightharpoonup> 64 word) \<times> warning list \<Rightarrow> string list
     \<Rightarrow> bool \<times> (string \<rightharpoonup> 64 word) \<times> warning list" where
  "globalLoop st [] = st"
| "globalLoop st (line # lines) = globalLoop (globalStep st line) lines"

text \<open>The result is the map, the error (or nil) and the warnings of the caller, extended.\<close>

definition parseGlobalStats ::
  "reader \<Rightarrow> warning list \<Rightarrow> (string \<rightharpoonup> 64 word) \<times> error option \<times> warning list" where
  "parseGlobalStats rd warnings =
     (case globalLoop (True, Map.empty, warnings) (scanTokens rd) of
        (skipParsing, metrics, warnings') \<Rightarrow>
          if skipParsing then (metrics, Some NoGlobalStats, warnings')
          else (metrics, None, warnings'))"

subsection \<open>collectGlobal\<close>

definition collectGlobal ::
  "filesystem \<Rightarrow> string \<Rightarrow> zfsResource \<Rightarrow> warning list
     \<Rightarrow> error option \<times> zfsResource \<times> warning list" where
  "collectGlobal fs basePath r warnings =
     (case fsOpen fs (Join [basePath, zfsProcArcStats]) of
        Inr file \<Rightarrow>
          (case parseGlobalStats file warnings of
             (metrics, None, warnings') \<Rightarrow>
               let g0 = globalStats r;
                   g1 = (case metrics ''size'' of Some v \<Rightarrow> g0\<lparr>arcSize := v\<rparr> | None \<Rightarrow> g0);
                   g2 = (case metrics ''hits'' of Some v \<Rightarrow> g1\<lparr>arcHits := v\<rparr> | None \<Rightarrow> g1);
                   g3 = (case metrics ''misses'' of Some v \<Rightarrow> g2\<lparr>arcMisses := v\<rparr> | None \<Rightarrow> g2)
               in (None, r\<lparr>globalStats := g3\<rparr>, warnings')
           | (metrics, Some err, warnings') \<Rightarrow>
               (None, r, warnings' @ [ParseArcWarning err]))
      | Inl err \<Rightarrow> (None, r, warnings @ [GatherArcWarning err]))"

subsection \<open>parsePoolState\<close>

definition parsePoolState :: "(nat \<Rightarrow> nat) \<Rightarrow> reader \<Rightarrow> string \<times> error option" where
  "parsePoolState caseTable rd =
     (case scanTokens rd of
        [] \<Rightarrow>
          (case scanErr rd of
             None \<Rightarrow> ([], Some StateEOF)
           | Some e \<Rightarrow> ([], Some (StateReadFailed e)))
      | line # _ \<Rightarrow> (ToUpper caseTable (TrimSpace line), None))"

subsection \<open>parsePoolIOStats\<close>

text \<open>The switch on the name of the column.\<close>

definition assignColumn :: "string \<Rightarrow> 64 word \<Rightarrow> zfsPoolIOStats \<Rightarrow> zfsPoolIOStats" where
  "assignColumn key v stats =
     (if key = ''reads'' then stats\<lparr>readCount := v\<rparr>
      else if key = ''writes'' then stats\<lparr>writeCount := v\<rparr>
      else if key = ''nread'' then stats\<lparr>bytesRead := v\<rparr>
      else if key = ''nwritten'' then stats\<lparr>bytesWritten := v\<rparr>
      else stats)"


text \<open>
  The inner loop over the captured column names, from position \<open>index\<close> on: it reads
  \<open>parts[index]\<close>, which panics where the line has no such field. It ends the call with an
  error (\<open>Inl\<close>, with the record as far as it was filled) or goes on with the next line.
\<close>

fun rowLoop ::
  "nat \<Rightarrow> string list \<Rightarrow> string list \<Rightarrow> zfsPoolIOStats
     \<Rightarrow> ((zfsPoolIOStats \<times> error) + zfsPoolIOStats) outcome" where
  "rowLoop index [] parts stats = Return (Inr stats)"
| "rowLoop index (key # keys) parts stats =
     (if index \<ge> length parts then Panic index (length parts)
      else case ParseUint (parts ! index) of
             Inl err \<Rightarrow> Return (Inl (stats, ParseColumnFailed key (parts ! index) err))
           | Inr v \<Rightarrow> rowLoop (Suc index) keys parts (assignColumn key v stats))"

text \<open>The scanning loop; its state is \<open>skipParsing\<close>, the captured \<open>fields\<close> (here \<open>colNames\<close>) and the record.\<close>

fun ioLoop ::
  "bool \<Rightarrow> string list \<Rightarrow> zfsPoolIOStats \<Rightarrow> string list
     \<Rightarrow> (zfsPoolIOStats \<times> error option) outcome" where
  "ioLoop skipParsing colNames stats [] = Return (stats, None)"
| "ioLoop skipParsing colNames stats (line # lines) =
     (let parts = Fields line in
      if skipParsing \<and> length parts \<ge> 12 \<and> parts ! 0 = ''nread''
      then ioLoop False parts stats lines
      else if skipParsing then ioLoop skipParsing colNames stats lines
      else case rowLoop 0 colNames parts stats of
             Panic i n \<Rightarrow> Panic i n
           | Return (Inl (stats', err)) \<Rightarrow> Return (stats', Some err)
           | Return (Inr stats') \<Rightarrow> ioLoop skipParsing colNames stats' lines)"

definition parsePoolIOStats :: "reader \<Rightarrow> (zfsPoolIOStats \<times> error option) outcome" where
  "parsePoolIOStats rd = ioLoop True [] zeroPoolIOStats (scanTokens rd)"

subsection \<open>updatePoolStats\<close>

definition updatePoolStats ::
  "(nat \<Rightarrow> nat) \<Rightarrow> filesystem \<Rightarrow> string \<Rightarrow> (zfsPoolStats \<times> error option) outcome" where
  "updatePoolStats caseTable fs poolPath =
     (case fsOpen fs (Join [poolPath, ''state'']) of
        Inl err \<Rightarrow> Return (zeroPoolStats, Some (OpenStateFailed err))
      | Inr stateFile \<Rightarrow>
          (case fsOpen fs (Join [poolPath, ''io'']) of
             Inl err \<Rightarrow> Return (zeroPoolStats, Some (OpenIOFailed err))
           | Inr ioStatsFile \<Rightarrow>
               (case parsePoolState caseTable stateFile of
                  (st, Some err) \<Rightarrow>
                    Return (zeroPoolStats\<lparr>state := st\<rparr>, Some (GatherStateFailed err))
                | (st, None) \<Rightarrow>
                    (case parsePoolIOStats ioStatsFile of
                       Panic i n \<Rightarrow> Panic i n
                     | Return (iostats, Some err) \<Rightarrow>
                         Return (\<lparr>state = st, io = iostats\<rparr>, Some (GatherIOFailed err))
                     | Return (iostats, None) \<Rightarrow>
                         Return (\<lparr>state = st, io = iostats\<rparr>, None)))))"

subsection \<open>collectPools\<close>

text \<open>
  The loop over the matches, on the map that \<open>r.poolStats\<close> holds: it returns the error (or
  nil) and the map as the loop left it.
\<close>

fun poolLoop ::
  "(nat \<Rightarrow> nat) \<Rightarrow> filesystem \<Rightarrow> (string \<rightharpoonup> zfsPoolStats) \<Rightarrow> string list
     \<Rightarrow> (error option \<times> (string \<rightharpoonup> zfsPoolStats)) outcome" where
  "poolLoop caseTable fs m [] = Return (None, m)"
| "poolLoop caseTable fs m (globMatch # rest) =
     (let poolPath = Dir globMatch; poolName = Base poolPath in
      case updatePoolStats caseTable fs poolPath of
        Panic i n \<Rightarrow> Panic i n
      | Return (stats, Some err) \<Rightarrow> Return (Some (GatherPoolFailed err), m)
      | Return (stats, None) \<Rightarrow> poolLoop caseTable fs (m(poolName \<mapsto> stats)) rest)"

text \<open>The pattern is built from the constant \<open>zfsProcBasePath\<close>; \<open>basePath\<close> is not read.\<close>

definition collectPools ::
  "(nat \<Rightarrow> nat) \<Rightarrow> filesystem \<Rightarrow> string \<Rightarrow> zfsResource
     \<Rightarrow> (error option \<times> zfsResource) outcome" where
  "collectPools caseTable fs basePath r =
     (case Glob fs (Join [zfsProcBasePath, zfsPoolPathPattern]) of
        Inl err \<Rightarrow> Return (Some (GlobFailed err), r)
      | Inr None \<Rightarrow> Return (None, r)
      | Inr (Some globMatches) \<Rightarrow>
          (case poolLoop caseTable fs Map.empty globMatches of
             Panic i n \<Rightarrow> Panic i n
           | Return (err, m) \<Rightarrow> Return (err, r\<lparr>poolStats := Some m\<rparr>)))"

subsection \<open>Collect\<close>

text \<open>
  The method \<open>Collect\<close> of the resource; the name \<open>Collect\<close> is the set comprehension
  of HOL, so the method is \<open>Collect_zfs\<close> here.
\<close>

definition Collect_zfs ::
  "(nat \<Rightarrow> nat) \<Rightarrow> filesystem \<Rightarrow> zfsResource \<Rightarrow> warning list
     \<Rightarrow> (error option \<times> zfsResource \<times> warning list) outcome" where
  "Collect_zfs caseTable fs r warnings =
     (case collectGlobal fs zfsProcBasePath r warnings of
        (Some err, r1, warnings1) \<Rightarrow> Return (Some err, r1, warnings1)
      | (None, r1, warnings1) \<Rightarrow>
          (case collectPools caseTable fs zfsProcBasePath r1 of
             Panic i n \<Rightarrow> Panic i n
           | Return (Some err, r2) \<Rightarrow> Return (Some err, r2, warnings1)
           | Return (None, r2) \<Rightarrow> Return (None, r2, warnings1)))"

section \<open>Concrete inputs\<close>

text \<open>Streams and file systems on which the theorems below are evaluated.\<close>

definition ioHeader :: string where
  "ioHeader = ''nread nwritten reads writes wtime wlentime wupdate rtime rlentime rupdate wcnt rcnt''"

definition ioNoHeader :: reader where
  "ioNoHeader =
     Reader (''12 3 0x00 1 80'' @ [LF] @ ''nread nwritten reads writes'' @ [LF] @ ''7 8 9 10'' @ [LF]) None"

definition ioOneRow :: reader where
  "ioOneRow =
     Reader (''12 3 0x00 1 80'' @ [LF] @ ioHeader @ [LF] @ ''2048 4096 10 20 0 0 0 0 0 0 0 0'' @ [LF]) None"

definition arcstatsGood :: reader where
  "arcstatsGood =
     Reader (''13 1 0x01 96 26112'' @ [LF] @ ''name type data'' @ [LF] @ ''hits 4 50'' @ [LF]
             @ ''misses 4 5'' @ [LF] @ ''size 4 1024'' @ [LF]) None"

definition arcstatsNoHeader :: reader where
  "arcstatsNoHeader = Reader (''hits 4 50'' @ [LF] @ ''name type'' @ [LF] @ ''size 4 1024'' @ [LF]) None"

definition ENOENT :: string where "ENOENT = ''no such file or directory''"

definition zeroGlobalStats :: zfsGlobalStats where
  "zeroGlobalStats = \<lparr>arcSize = 0, arcHits = 0, arcMisses = 0\<rparr>"

definition tankStats :: zfsPoolStats where
  "tankStats = \<lparr>state = ''ONLINE'',
                 io = \<lparr>readCount = 10, writeCount = 20, bytesRead = 2048, bytesWritten = 4096\<rparr>\<rparr>"

text \<open>A resource before its first pass, and one that holds the pool of an earlier pass.\<close>

definition rFresh :: zfsResource where
  "rFresh = \<lparr>globalStats = zeroGlobalStats, poolStats = None\<rparr>"

definition rOld :: zfsResource where
  "rOld = \<lparr>globalStats = zeroGlobalStats, poolStats = Some (Map.empty(''old'' \<mapsto> zeroPoolStats))\<rparr>"

text \<open>A file system given by the matches of its patterns and the streams of its files.\<close>

definition fsOf :: "(string \<times> string list) list \<Rightarrow> (string \<times> reader) list \<Rightarrow> filesystem" where
  "fsOf globs files =
     \<lparr>fsGlob = (\<lambda>pattern. case map_of globs pattern of None \<Rightarrow> Inr [] | Some ms \<Rightarrow> Inr ms),
      fsOpen = (\<lambda>path. case map_of files path of None \<Rightarrow> Inl ENOENT | Some rd \<Rightarrow> Inr rd)\<rparr>"

definition stateOnline :: reader where
  "stateOnline = Reader (''ONLINE'' @ [LF]) None"

text \<open>No pool directory and no file at all.\<close>

definition fsNoPools :: filesystem where
  "fsNoPools = fsOf [] []"

text \<open>The pool \<open>tank\<close> under the fixed base path, with its two files and with \<open>arcstats\<close>.\<close>

definition fsTank :: filesystem where
  "fsTank =
     fsOf [(''/proc/spl/kstat/zfs/*/io'', [''/proc/spl/kstat/zfs/tank/io''])]
          [(''/proc/spl/kstat/zfs/arcstats'', arcstatsGood),
           (''/proc/spl/kstat/zfs/tank/state'', stateOnline),
           (''/proc/spl/kstat/zfs/tank/io'', ioOneRow)]"

text \<open>The same, with an \<open>arcstats\<close> file that has no header line.\<close>

definition fsTankNoHeader :: filesystem where
  "fsTankNoHeader =
     fsOf [(''/proc/spl/kstat/zfs/*/io'', [''/proc/spl/kstat/zfs/tank/io''])]
          [(''/proc/spl/kstat/zfs/arcstats'', arcstatsNoHeader),
           (''/proc/spl/kstat/zfs/tank/state'', stateOnline),
           (''/proc/spl/kstat/zfs/tank/io'', ioOneRow)]"

text \<open>The pool \<open>tank\<close> under another base path, and nothing under the fixed one.\<close>

definition fsTmp :: filesystem where
  "fsTmp =
     fsOf [(''/tmp/zfs/*/io'', [''/tmp/zfs/tank/io''])]
          [(''/tmp/zfs/tank/state'', stateOnline),
           (''/tmp/zfs/tank/io'', ioOneRow)]"

text \<open>Two pools under the fixed base path; the second one has no \<open>state\<close> file.\<close>

definition fsTwoPools :: filesystem where
  "fsTwoPools =
     fsOf [(''/proc/spl/kstat/zfs/*/io'',
             [''/proc/spl/kstat/zfs/tank/io'', ''/proc/spl/kstat/zfs/zbad/io''])]
          [(''/proc/spl/kstat/zfs/tank/state'', stateOnline),
           (''/proc/spl/kstat/zfs/tank/io'', ioOneRow),
           (''/proc/spl/kstat/zfs/zbad/io'', ioOneRow)]"

text \<open>The pool \<open>tank\<close> with an empty \<open>state\<close> file.\<close>

definition fsEmptyState :: filesystem where
  "fsEmptyState =
     fsOf [(''/proc/spl/kstat/zfs/*/io'', [''/proc/spl/kstat/zfs/tank/io''])]
          [(''/proc/spl/kstat/zfs/tank/state'', Reader [] None),
           (''/proc/spl/kstat/zfs/tank/io'', ioOneRow)]"

text \<open>An I/O table whose data row has fewer fields than its header, and one whose
  header is followed by an empty line.\<close>

definition ioShortRow :: reader where
  "ioShortRow = Reader (ioHeader @ [LF] @ ''2048 4096 10'' @ [LF]) None"

definition ioBlankRow :: reader where
  "ioBlankRow = Reader (ioHeader @ [LF] @ [LF]) None"




text \<open>
  The entries of the case table for Latin-1 (\<open>U+00B5\<close>, \<open>U+00E0\<close> to \<open>U+00FE\<close>
  without \<open>U+00F7\<close>, \<open>U+00FF\<close>); every other code point is left as it is. It stands
  for the case table where a theorem is evaluated on an input within Latin-1.
\<close>

definition latin1Upper :: "nat \<Rightarrow> nat" where
  "latin1Upper r =
     (if r = 0xB5 then 0x39C
      else if (0xE0 \<le> r \<and> r \<le> 0xF6) \<or> (0xF8 \<le> r \<and> r \<le> 0xFE) then r - 0x20
      else if r = 0xFF then 0x178
      else r)"

text \<open>State files: a first line of 65536 bytes, and a line with a letter beyond ASCII
  after a no-break space.\<close>

definition stateLongLine :: reader where
  "stateLongLine = Reader (replicate 65536 (CHR ''a'') @ [LF]) None"

definition stateAccent :: reader where
  "stateAccent =
     Reader ([CHR 0xC2, CHR 0xA0] @ ''d'' @ [CHR 0xC3, CHR 0xA9] @ ''grad''
             @ [CHR 0xC3, CHR 0xA9] @ [CR, LF]) None"

section \<open>Properties\<close>

subsection \<open>Evaluation\<close>

lemmas eval_defs =
  LF_def CR_def RuneError_def runes_def EncodeRune_def IsSpace_def Fields_def TrimSpace_def
  upperRune_def ToUpper_def latin1Upper_def Let_def char_of_def bit_Suc_0_iff
  digitOf_def maxUint64_def ParseUint_def sep_def dropCR_def
  MaxScanTokenSize_def scanTokens_def scanErr_def ErrTooLong_def Clean_def Join_def Dir_def
  Base_def zfsProcBasePath_def zfsProcArcStats_def zfsPoolPathPattern_def zfsTypeUint64_def

lemmas input_defs =
  ioHeader_def ioNoHeader_def ioOneRow_def arcstatsGood_def arcstatsNoHeader_def ENOENT_def
  zeroGlobalStats_def tankStats_def rFresh_def rOld_def stateOnline_def
  zeroPoolIOStats_def zeroPoolStats_def

lemmas fs_defs = fsOf_def fsNoPools_def fsTank_def fsTankNoHeader_def fsTmp_def fsTwoPools_def

text \<open>
  White space beyond ASCII: a no-break space (\<open>U+00A0\<close>, the bytes \<open>C2 A0\<close>) and
  an em space (\<open>U+2003\<close>, the bytes \<open>E2 80 83\<close>) separate fields; an invalid byte
  does not, and \<open>ToUpper\<close> writes it as \<open>U+FFFD\<close> (which no case table changes).
\<close>

lemma Fields_unicode_space:
  "Fields (''size 4'' @ [CHR 0xC2, CHR 0xA0] @ ''7'') = [''size'', ''4'', ''7'']
   \<and> Fields (''name'' @ [CHR 0xE2, CHR 0x80, CHR 0x83] @ ''type data'') = [''name'', ''type'', ''data'']
   \<and> Fields (''a'' @ [CHR 0xA0] @ ''b c'') = [''a'' @ [CHR 0xA0] @ ''b'', ''c'']
   \<and> TrimSpace ([CHR 0xC2, CHR 0xA0] @ '' online'' @ [CHR 0xC2, CHR 0x85]) = ''online''
   \<and> ToUpper latin1Upper (''a'' @ [CHR 0xFF] @ ''b'')
       = ''A'' @ [CHR 0xEF, CHR 0xBF, CHR 0xBD] @ ''B''"
  by (simp add: eval_defs)

lemma parseGlobalStats_unicode_space:
  "fst (parseGlobalStats
          (Reader (''name type data'' @ [LF] @ ''size 4'' @ [CHR 0xC2, CHR 0xA0] @ ''7'' @ [LF]
                   @ ''hits 4 9'' @ [LF]) None) []) ''size'' = Some 7"
  by (simp add: parseGlobalStats_def globalStep_def eval_defs)

subsection \<open>Frames of the two collectors\<close>

lemma collectGlobal_returns_nil: "fst (collectGlobal fs basePath r ws) = None"
  by (simp add: collectGlobal_def Let_def split: sum.split prod.split option.split)

lemma collectGlobal_poolStats:
  "poolStats (fst (snd (collectGlobal fs basePath r ws))) = poolStats r"
  by (simp add: collectGlobal_def Let_def split: sum.split prod.split option.split)

lemma collectPools_nil:
  "fsGlob fs (Join [zfsProcBasePath, zfsPoolPathPattern]) = Inr []
   \<Longrightarrow> collectPools tb fs basePath r = Return (None, r)"
  by (simp add: collectPools_def Glob_def)

lemma poolLoop_dom:
  "poolLoop tb fs m ms = Return (e, m') \<Longrightarrow> dom m' \<subseteq> dom m \<union> (\<lambda>p. Base (Dir p)) ` set ms"
proof (induction ms arbitrary: m)
  case Nil
  then show ?case by simp
next
  case (Cons p ps)
  show ?case
  proof (cases "updatePoolStats tb fs (Dir p)")
    case (Panic i n)
    with Cons.prems show ?thesis by (simp add: Let_def)
  next
    case (Return res)
    obtain s eo where res: "res = (s, eo)" by (cases res)
    show ?thesis
    proof (cases eo)
      case None
      with Return res Cons.prems
      have "poolLoop tb fs (m(Base (Dir p) \<mapsto> s)) ps = Return (e, m')" by (simp add: Let_def)
      from Cons.IH [OF this] show ?thesis by auto
    next
      case (Some err)
      with Return res Cons.prems show ?thesis by (auto simp: Let_def)
    qed
  qed
qed

subsection \<open>The I/O table without a header\<close>

lemma ioLoop_seeking:
  "\<forall>line \<in> set ls. \<not> (length (Fields line) \<ge> 12 \<and> Fields line ! 0 = ''nread'')
   \<Longrightarrow> ioLoop True cols st ls = Return (st, None)"
  by (induction ls) (auto simp: Let_def)

text \<open>
  Claim C7. For every stream of an I/O table in which the scanner finds no line of at
  least 12 fields whose first field is \<open>nread\<close>, \<open>parsePoolIOStats\<close> returns the
  zero-valued record and no error.
\<close>

theorem parsePoolIOStats_no_header:
  assumes "\<forall>line \<in> set (scanTokens rd).
             \<not> (length (Fields line) \<ge> 12 \<and> Fields line ! 0 = ''nread'')"
  shows "parsePoolIOStats rd = Return (zeroPoolIOStats, None)"
  unfolding parsePoolIOStats_def using assms by (rule ioLoop_seeking)

theorem parsePoolIOStats_no_header_witness:
  "scanTokens ioNoHeader = [''12 3 0x00 1 80'', ''nread nwritten reads writes'', ''7 8 9 10'']
   \<and> parsePoolIOStats ioNoHeader = Return (zeroPoolIOStats, None)"
proof -
  have toks: "scanTokens ioNoHeader
                = [''12 3 0x00 1 80'', ''nread nwritten reads writes'', ''7 8 9 10'']"
    by (simp add: ioNoHeader_def eval_defs)
  have h: "\<forall>line \<in> set (scanTokens ioNoHeader).
             \<not> (length (Fields line) \<ge> 12 \<and> Fields line ! 0 = ''nread'')"
    unfolding toks by (simp add: eval_defs)
  show ?thesis using parsePoolIOStats_no_header [OF h] toks by simp
qed

subsection \<open>The pool \<open>tank\<close>, evaluated\<close>

lemma tank_pattern: "Join [zfsProcBasePath, zfsPoolPathPattern] = ''/proc/spl/kstat/zfs/*/io''"
  by (simp add: eval_defs)

lemma tank_dir: "Dir ''/proc/spl/kstat/zfs/tank/io'' = ''/proc/spl/kstat/zfs/tank''"
  by (simp add: eval_defs)

lemma tank_base: "Base ''/proc/spl/kstat/zfs/tank'' = ''tank''"
  by (simp add: eval_defs)

lemma tank_updatePoolStats:
  assumes "fsOpen fs ''/proc/spl/kstat/zfs/tank/state'' = Inr stateOnline"
    and "fsOpen fs ''/proc/spl/kstat/zfs/tank/io'' = Inr ioOneRow"
  shows "updatePoolStats tb fs ''/proc/spl/kstat/zfs/tank'' = Return (tankStats, None)"
proof -
  have j: "Join [''/proc/spl/kstat/zfs/tank'', ''state''] = ''/proc/spl/kstat/zfs/tank/state''"
    "Join [''/proc/spl/kstat/zfs/tank'', ''io''] = ''/proc/spl/kstat/zfs/tank/io''"
    by (simp_all add: eval_defs)
  have s: "parsePoolState tb stateOnline = (''ONLINE'', None)"
    by (simp add: parsePoolState_def eval_defs input_defs)
  have i: "parsePoolIOStats ioOneRow
             = Return (\<lparr>readCount = 10, writeCount = 20, bytesRead = 2048, bytesWritten = 4096\<rparr>, None)"
    by (simp add: parsePoolIOStats_def assignColumn_def eval_defs input_defs)
  show ?thesis by (simp add: updatePoolStats_def j assms s i tankStats_def)
qed

lemma tank_collectPools:
  assumes "fsGlob fs ''/proc/spl/kstat/zfs/*/io'' = Inr [''/proc/spl/kstat/zfs/tank/io'']"
    and "fsOpen fs ''/proc/spl/kstat/zfs/tank/state'' = Inr stateOnline"
    and "fsOpen fs ''/proc/spl/kstat/zfs/tank/io'' = Inr ioOneRow"
  shows "collectPools tb fs b r
           = Return (None, r\<lparr>poolStats := Some (Map.empty(''tank'' \<mapsto> tankStats))\<rparr>)"
proof -
  have g: "Glob fs ''/proc/spl/kstat/zfs/*/io'' = Inr (Some [''/proc/spl/kstat/zfs/tank/io''])"
    by (simp add: Glob_def assms(1))
  show ?thesis
    by (simp add: collectPools_def tank_pattern g tank_dir tank_base
        tank_updatePoolStats [OF assms(2,3)])
qed

text \<open>
  The pass on the file system with \<open>arcstats\<close> and the pool \<open>tank\<close>: the three global
  counters, the pool with its state and its four I/O counters, no warning and no error.
\<close>

lemma tank_Collect:
  "Collect_zfs tb fsTank rFresh []
     = Return (None,
               \<lparr>globalStats = \<lparr>arcSize = 1024, arcHits = 50, arcMisses = 5\<rparr>,
                poolStats = Some (Map.empty(''tank'' \<mapsto> tankStats))\<rparr>,
               [])"
proof -
  have p: "parseGlobalStats arcstatsGood []
             = (Map.empty(''hits'' \<mapsto> 50, ''misses'' \<mapsto> 5, ''size'' \<mapsto> 1024), None, [])"
    by (simp add: parseGlobalStats_def globalStep_def arcstatsGood_def eval_defs)
  have g: "collectGlobal fsTank zfsProcBasePath rFresh []
             = (None, rFresh\<lparr>globalStats := \<lparr>arcSize = 1024, arcHits = 50, arcMisses = 5\<rparr>\<rparr>, [])"
    by (simp add: collectGlobal_def fs_defs eval_defs p rFresh_def zeroGlobalStats_def)
  have c: "collectPools tb fsTank zfsProcBasePath
             (rFresh\<lparr>globalStats := \<lparr>arcSize = 1024, arcHits = 50, arcMisses = 5\<rparr>\<rparr>)
           = Return (None, rFresh\<lparr>globalStats := \<lparr>arcSize = 1024, arcHits = 50, arcMisses = 5\<rparr>,
                                  poolStats := Some (Map.empty(''tank'' \<mapsto> tankStats))\<rparr>)"
    by (rule tank_collectPools) (simp_all add: fs_defs)
  have "Collect_zfs tb fsTank rFresh []
          = Return (None, rFresh\<lparr>globalStats := \<lparr>arcSize = 1024, arcHits = 50, arcMisses = 5\<rparr>,
                                  poolStats := Some (Map.empty(''tank'' \<mapsto> tankStats))\<rparr>, [])"
    by (simp add: Collect_zfs_def g c)
  then show ?thesis by (simp add: rFresh_def)
qed

subsection \<open>Discovery without a match\<close>

text \<open>
  Claim C10. When the glob yields no match, \<open>collectPools\<close> returns before it makes a new
  map: the resource, and with it whatever map of pools it held (also a populated one of an
  earlier pass), is returned as it was. Only with at least one match is the map replaced
  by a new one, whose keys are names of the matches of this pass and nothing older.
\<close>

theorem collectPools_zero_matches_retains_map:
  "(fsGlob fs (Join [zfsProcBasePath, zfsPoolPathPattern]) = Inr []
      \<longrightarrow> collectPools tb fs basePath r = Return (None, r))
   \<and> (\<forall>ms err r'. fsGlob fs (Join [zfsProcBasePath, zfsPoolPathPattern]) = Inr ms \<and> ms \<noteq> []
          \<and> collectPools tb fs basePath r = Return (err, r')
      \<longrightarrow> (\<exists>m. r' = r\<lparr>poolStats := Some m\<rparr> \<and> dom m \<subseteq> (\<lambda>p. Base (Dir p)) ` set ms))"
proof (intro conjI impI allI)
  assume "fsGlob fs (Join [zfsProcBasePath, zfsPoolPathPattern]) = Inr []"
  then show "collectPools tb fs basePath r = Return (None, r)" by (rule collectPools_nil)
next
  fix ms err r'
  assume a: "fsGlob fs (Join [zfsProcBasePath, zfsPoolPathPattern]) = Inr ms \<and> ms \<noteq> []
          \<and> collectPools tb fs basePath r = Return (err, r')"
  then obtain x xs where ms: "ms = x # xs" by (cases ms) auto
  with a have g: "Glob fs (Join [zfsProcBasePath, zfsPoolPathPattern]) = Inr (Some ms)"
    by (simp add: Glob_def)
  show "\<exists>m. r' = r\<lparr>poolStats := Some m\<rparr> \<and> dom m \<subseteq> (\<lambda>p. Base (Dir p)) ` set ms"
  proof (cases "poolLoop tb fs Map.empty ms")
    case (Panic i n)
    with a g show ?thesis by (simp add: collectPools_def)
  next
    case (Return res)
    obtain e m where res: "res = (e, m)" by (cases res)
    from poolLoop_dom [of tb fs Map.empty ms e m] Return res
    have "dom m \<subseteq> (\<lambda>p. Base (Dir p)) ` set ms" by simp
    moreover from a g Return res have "r' = r\<lparr>poolStats := Some m\<rparr>"
      by (simp add: collectPools_def)
    ultimately show ?thesis by blast
  qed
qed

theorem collectPools_zero_matches_retains_map_witness:
  "collectPools latin1Upper fsNoPools ''/proc/spl/kstat/zfs'' rOld = Return (None, rOld)
   \<and> poolStats rOld = Some (Map.empty(''old'' \<mapsto> zeroPoolStats))
   \<and> collectPools latin1Upper fsTank ''/proc/spl/kstat/zfs'' rOld
       = Return (None, rOld\<lparr>poolStats := Some (Map.empty(''tank'' \<mapsto> tankStats))\<rparr>)
   \<and> dom (Map.empty(''tank'' \<mapsto> tankStats)) \<subseteq> {''tank''}"
proof -
  have h0: "fsGlob fsNoPools (Join [zfsProcBasePath, zfsPoolPathPattern]) = Inr []"
    by (simp add: fs_defs)
  have c0: "collectPools latin1Upper fsNoPools ''/proc/spl/kstat/zfs'' rOld = Return (None, rOld)"
    using collectPools_zero_matches_retains_map [of fsNoPools latin1Upper "''/proc/spl/kstat/zfs''" rOld] h0
    by simp
  have h1: "fsGlob fsTank (Join [zfsProcBasePath, zfsPoolPathPattern])
              = Inr [''/proc/spl/kstat/zfs/tank/io'']"
    by (simp add: tank_pattern fs_defs)
  have c1: "collectPools latin1Upper fsTank ''/proc/spl/kstat/zfs'' rOld
       = Return (None, rOld\<lparr>poolStats := Some (Map.empty(''tank'' \<mapsto> tankStats))\<rparr>)"
    by (rule tank_collectPools) (simp_all add: fs_defs)
  from collectPools_zero_matches_retains_map [of fsTank latin1Upper "''/proc/spl/kstat/zfs''" rOld] h1 c1
  obtain m where m: "rOld\<lparr>poolStats := Some (Map.empty(''tank'' \<mapsto> tankStats))\<rparr> = rOld\<lparr>poolStats := Some m\<rparr>"
    and d: "dom m \<subseteq> (\<lambda>p. Base (Dir p)) ` set [''/proc/spl/kstat/zfs/tank/io'']"
    by blast
  from m have "poolStats (rOld\<lparr>poolStats := Some (Map.empty(''tank'' \<mapsto> tankStats))\<rparr>) = poolStats (rOld\<lparr>poolStats := Some m\<rparr>)"
    by (rule arg_cong)
  then have "m = Map.empty(''tank'' \<mapsto> tankStats)" by simp
  with d have "dom (Map.empty(''tank'' \<mapsto> tankStats)) \<subseteq> {''tank''}" by simp
  with c0 c1 show ?thesis by (simp add: rOld_def)
qed

text \<open>
  Claim C4. When the glob matches no path, the pass returns no error and does not
  initialise the map of pools: the map is left as it was, so on a resource whose map is
  nil it is still nil afterwards, which differs from a map that is present and empty.
\<close>

theorem Collect_zero_matches:
  assumes "fsGlob fs (Join [zfsProcBasePath, zfsPoolPathPattern]) = Inr []"
  shows "\<exists>r' ws'. Collect_zfs tb fs r ws = Return (None, r', ws')
           \<and> poolStats r' = poolStats r
           \<and> (poolStats r = None \<longrightarrow> poolStats r' = None \<and> poolStats r' \<noteq> Some Map.empty)"
proof -
  obtain e r1 ws1 where g: "collectGlobal fs zfsProcBasePath r ws = (e, r1, ws1)"
    by (cases "collectGlobal fs zfsProcBasePath r ws") auto
  from g collectGlobal_returns_nil [of fs zfsProcBasePath r ws] have e: "e = None" by simp
  from g collectGlobal_poolStats [of fs zfsProcBasePath r ws] have p: "poolStats r1 = poolStats r"
    by simp
  from assms have "collectPools tb fs zfsProcBasePath r1 = Return (None, r1)"
    by (rule collectPools_nil)
  with g e have "Collect_zfs tb fs r ws = Return (None, r1, ws1)" by (simp add: Collect_zfs_def)
  with p show ?thesis by auto
qed

theorem Collect_zero_matches_witness:
  "Collect_zfs latin1Upper fsNoPools rFresh [] = Return (None, rFresh, [GatherArcWarning ENOENT])
   \<and> poolStats rFresh = None"
proof -
  have h: "fsGlob fsNoPools (Join [zfsProcBasePath, zfsPoolPathPattern]) = Inr []"
    by (simp add: fs_defs)
  have g: "collectGlobal fsNoPools zfsProcBasePath rFresh [] = (None, rFresh, [GatherArcWarning ENOENT])"
    by (simp add: collectGlobal_def fs_defs)
  from Collect_zero_matches [OF h, of latin1Upper rFresh "[]"]
  obtain r' ws' where c: "Collect_zfs latin1Upper fsNoPools rFresh [] = Return (None, r', ws')"
    and "poolStats r' = poolStats rFresh" by blast
  from c g collectPools_nil [OF h] have "Collect_zfs latin1Upper fsNoPools rFresh [] = Return (None, rFresh, [GatherArcWarning ENOENT])"
    by (simp add: Collect_zfs_def)
  then show ?thesis by (simp add: rFresh_def)
qed

subsection \<open>Global statistics without a header\<close>

lemma header_iff:
  "(length p = 3 \<and> p ! 0 = a \<and> p ! 1 = b \<and> p ! 2 = c) = (p = [a, b, c])"
  by (auto simp: length_Suc_conv numeral_3_eq_3)

lemma globalStep_seeking:
  "Fields line \<noteq> [''name'', ''type'', ''data''] \<Longrightarrow> globalStep (True, m, ws) line = (True, m, ws)"
  using header_iff [of "Fields line" "''name''" "''type''" "''data''"]
  by (auto simp: globalStep_def Let_def)

lemma globalLoop_seeking:
  "\<forall>line \<in> set ls. Fields line \<noteq> [''name'', ''type'', ''data'']
   \<Longrightarrow> globalLoop (True, m, ws) ls = (True, m, ws)"
  by (induction ls) (simp_all add: globalStep_seeking)

lemma collectPools_globalStats:
  "collectPools tb fs basePath r = Return (e, r') \<Longrightarrow> globalStats r' = globalStats r"
  by (auto simp: collectPools_def split: sum.splits option.splits outcome.splits)

text \<open>
  Claim C5. For every stream of global statistics in which the scanner finds no line whose
  fields are exactly \<open>name\<close>, \<open>type\<close>, \<open>data\<close>, \<open>parseGlobalStats\<close> returns the
  error \<open>NoGlobalStats\<close> and adds no warning; \<open>collectGlobal\<close> then adds exactly one
  warning, returns nil and leaves the resource as it was; the pass goes on and returns what
  \<open>collectPools\<close> returns, with the three fields of the global statistics unchanged.
\<close>

theorem collectGlobal_missing_header:
  assumes "fsOpen fs (Join [basePath, zfsProcArcStats]) = Inr rd"
    and "\<forall>line \<in> set (scanTokens rd). Fields line \<noteq> [''name'', ''type'', ''data'']"
  shows "parseGlobalStats rd ws = (Map.empty, Some NoGlobalStats, ws)
       \<and> collectGlobal fs basePath r ws = (None, r, ws @ [ParseArcWarning NoGlobalStats])
       \<and> (basePath = zfsProcBasePath \<longrightarrow>
            Collect_zfs tb fs r ws =
              (case collectPools tb fs zfsProcBasePath r of
                 Panic i n \<Rightarrow> Panic i n
               | Return (e, r') \<Rightarrow> Return (e, r', ws @ [ParseArcWarning NoGlobalStats]))
            \<and> (\<forall>e r' ws'. Collect_zfs tb fs r ws = Return (e, r', ws')
                  \<longrightarrow> globalStats r' = globalStats r))"
proof -
  have p: "parseGlobalStats rd ws = (Map.empty, Some NoGlobalStats, ws)"
    by (simp add: parseGlobalStats_def globalLoop_seeking [OF assms(2)])
  have g: "collectGlobal fs basePath r ws = (None, r, ws @ [ParseArcWarning NoGlobalStats])"
    by (simp add: collectGlobal_def assms(1) p)
  have c: "Collect_zfs tb fs r ws =
              (case collectPools tb fs zfsProcBasePath r of
                 Panic i n \<Rightarrow> Panic i n
               | Return (e, r') \<Rightarrow> Return (e, r', ws @ [ParseArcWarning NoGlobalStats]))"
    if "basePath = zfsProcBasePath"
    using g that by (simp add: Collect_zfs_def split: outcome.split option.split prod.split)
  have f: "globalStats r' = globalStats r"
    if "basePath = zfsProcBasePath" and "Collect_zfs tb fs r ws = Return (e, r', ws')" for e r' ws'
  proof -
    from that c have "collectPools tb fs zfsProcBasePath r = Return (e, r')"
      by (simp split: outcome.splits prod.splits)
    then show ?thesis by (rule collectPools_globalStats)
  qed
  from p g c f show ?thesis by blast
qed

theorem collectGlobal_missing_header_witness:
  "parseGlobalStats arcstatsNoHeader [] = (Map.empty, Some NoGlobalStats, [])
   \<and> Collect_zfs latin1Upper fsTankNoHeader rFresh []
       = Return (None, rFresh\<lparr>poolStats := Some (Map.empty(''tank'' \<mapsto> tankStats))\<rparr>,
                 [ParseArcWarning NoGlobalStats])
   \<and> globalStats (rFresh\<lparr>poolStats := Some (Map.empty(''tank'' \<mapsto> tankStats))\<rparr>) = zeroGlobalStats"
proof -
  have o: "fsOpen fsTankNoHeader (Join [zfsProcBasePath, zfsProcArcStats]) = Inr arcstatsNoHeader"
    by (simp add: fs_defs eval_defs)
  have toks: "scanTokens arcstatsNoHeader = [''hits 4 50'', ''name type'', ''size 4 1024'']"
    by (simp add: arcstatsNoHeader_def eval_defs)
  have h: "\<forall>line \<in> set (scanTokens arcstatsNoHeader). Fields line \<noteq> [''name'', ''type'', ''data'']"
    unfolding toks by (simp add: eval_defs)
  have cp: "collectPools latin1Upper fsTankNoHeader zfsProcBasePath rFresh
              = Return (None, rFresh\<lparr>poolStats := Some (Map.empty(''tank'' \<mapsto> tankStats))\<rparr>)"
    by (rule tank_collectPools) (simp_all add: fs_defs)
  from collectGlobal_missing_header [OF o h, of "[]" rFresh latin1Upper] cp
  show ?thesis by (simp add: rFresh_def)
qed

subsection \<open>The state line\<close>

lemma scanTokens_first:
  assumes "content rd \<noteq> []"
    and "length (takeWhile (\<lambda>c. c \<noteq> LF) (content rd)) < MaxScanTokenSize"
  shows "\<exists>rest. scanTokens rd = dropCR (takeWhile (\<lambda>c. c \<noteq> LF) (content rd)) # rest"
proof -
  define l where "l = takeWhile (\<lambda>c. c \<noteq> LF) (content rd)"
  from assms(1) obtain c cs where c: "content rd = c # cs" by (cases "content rd") auto
  have "rawLines (c # cs) = takeWhile (\<lambda>x. x \<noteq> LF) (c # cs)
          # rawLines (drop 1 (dropWhile (\<lambda>x. x \<noteq> LF) (c # cs)))"
    by (rule rawLines.simps)
  then obtain R where r: "rawLines (content rd) = l # R" unfolding l_def c by blast
  from assms(2) have "length l < MaxScanTokenSize" by (simp only: l_def)
  then have "scanTokens rd = dropCR l # map dropCR (takeWhile (\<lambda>l. length l < MaxScanTokenSize) R)"
    by (simp add: scanTokens_def r)
  then show ?thesis unfolding l_def by blast
qed

lemma scanTokens_empty: "content rd = [] \<Longrightarrow> scanTokens rd = [] \<and> scanErr rd = failure rd"
  by (simp add: scanTokens_def scanErr_def)

lemma DecodeRune_ascii:
  "(of_char c :: nat) < 0x80 \<Longrightarrow> DecodeRune (c # cs) = (of_char c, 1)"
  by simp

lemma runesFrom_ascii:
  "\<forall>c \<in> set s. (of_char c :: nat) < 0x80 \<Longrightarrow> runesFrom 0 s = map (\<lambda>c. (of_char c, [c])) s"
  by (induction s) (simp_all del: DecodeRune.simps add: DecodeRune_ascii)

lemma IsSpace_ascii: "(of_char c :: nat) < 0x80 \<Longrightarrow> IsSpace (of_char c) = asciiSpace c"
  by (auto simp: IsSpace_def asciiSpace_def)

lemma concat_single: "concat (map (\<lambda>x. [f x]) xs) = map f xs"
  by (induction xs) simp_all

lemma dropWhile_ascii:
  "\<forall>c \<in> set s. (of_char c :: nat) < 0x80
   \<Longrightarrow> dropWhile (\<lambda>c. IsSpace (of_char c)) s = dropWhile asciiSpace s"
  by (induction s) (simp_all add: IsSpace_ascii)

lemma TrimSpace_ascii:
  assumes "\<forall>c \<in> set s. (of_char c :: nat) < 0x80"
  shows "TrimSpace s = trimASCII s"
proof -
  let ?f = "\<lambda>c. ((of_char c :: nat), [c])"
  let ?d = "dropWhile asciiSpace s"
  have a: "dropWhile (\<lambda>x. IsSpace (fst x)) (map ?f s) = map ?f ?d"
    using dropWhile_ascii [OF assms] by (simp add: dropWhile_map comp_def)
  have "\<forall>c \<in> set (rev ?d). (of_char c :: nat) < 0x80"
    using assms set_dropWhileD by fastforce
  then have b: "dropWhile (\<lambda>x. IsSpace (fst x)) (map ?f (rev ?d)) = map ?f (dropWhile asciiSpace (rev ?d))"
    using dropWhile_ascii [of "rev ?d"] by (simp add: dropWhile_map comp_def)
  have r: "rev (map ?f ?d) = map ?f (rev ?d)" by (rule rev_map)
  have "TrimSpace s = concat (map snd (rev (dropWhile (\<lambda>x. IsSpace (fst x)) (rev (map ?f ?d)))))"
    by (simp only: TrimSpace_def runes_def runesFrom_ascii [OF assms] a)
  also have "\<dots> = concat (map snd (rev (map ?f (dropWhile asciiSpace (rev ?d)))))"
    by (simp only: r b)
  also have "\<dots> = trimASCII s"
    by (simp add: trimASCII_def rev_map comp_def concat_single [of "\<lambda>x. x", simplified])
  finally show ?thesis .
qed

lemma mapRunes_ascii:
  "\<forall>c \<in> set s. (of_char c :: nat) < 0x80
   \<Longrightarrow> mapRunes (upperRune tb) w (map (\<lambda>c. (of_char c, [c])) s) = map asciiUpper s"
proof (induction s arbitrary: w)
  case Nil
  then show ?case by simp
next
  case (Cons c s)
  then have c: "(of_char c :: nat) < 0x80" and s: "\<forall>c \<in> set s. (of_char c :: nat) < 0x80"
    by simp_all
  have lt: "upperRune tb (of_char c) < 0x80"
    using c unfolding upperRune_def by (simp split: if_splits) arith
  have "asciiUpper c = char_of (upperRune tb (of_char c))"
    using c by (simp add: upperRune_def asciiUpper_def)
  with lt have e: "EncodeRune (upperRune tb (of_char c)) = [asciiUpper c]"
    by (simp add: EncodeRune_def)
  have u: "upperRune tb (of_char c) = of_char c \<Longrightarrow> asciiUpper c = c"
    using c by (auto simp: upperRune_def asciiUpper_def split: if_splits)
  show ?case using Cons.IH [OF s] e u by (simp add: RuneError_def)
qed

lemma ToUpper_ascii:
  "\<forall>c \<in> set s. (of_char c :: nat) < 0x80 \<Longrightarrow> ToUpper tb s = upperASCII s"
  by (simp add: ToUpper_def upperASCII_def runes_def runesFrom_ascii mapRunes_ascii)

lemma asciiUpper_not_lower:
  "\<not> (0x61 \<le> (of_char (asciiUpper c) :: nat) \<and> (of_char (asciiUpper c) :: nat) \<le> 0x7A)"
proof (cases "0x61 \<le> (of_char c :: nat) \<and> (of_char c :: nat) \<le> 0x7A")
  case True
  then have "(of_char c :: nat) - 0x20 < 256" by arith
  then have "((of_char c :: nat) - 0x20) mod 256 = of_char c - 0x20" by simp
  with True show ?thesis by (simp add: asciiUpper_def, arith)
next
  case False
  then show ?thesis by (auto simp: asciiUpper_def)
qed

lemma asciiSpace_asciiUpper: "asciiSpace (asciiUpper c) = asciiSpace c"
  by (auto simp: asciiUpper_def asciiSpace_def)

lemma last_dropWhile_eq: "dropWhile P xs \<noteq> [] \<Longrightarrow> last (dropWhile P xs) = last xs"
  by (metis last_appendR takeWhile_dropWhile_id)

lemma trimASCII_ends:
  assumes "trimASCII s \<noteq> []"
  shows "\<not> asciiSpace (hd (trimASCII s)) \<and> \<not> asciiSpace (last (trimASCII s))"
proof -
  let ?d = "dropWhile asciiSpace s"
  let ?e = "dropWhile asciiSpace (rev ?d)"
  from assms have e: "?e \<noteq> []" by (simp add: trimASCII_def)
  have d: "?d \<noteq> []"
  proof
    assume a: "?d = []"
    have "?e = []" unfolding a by simp
    with e show False by blast
  qed
  have "last (trimASCII s) = hd ?e" using e by (simp add: trimASCII_def last_rev)
  moreover have "\<not> asciiSpace (hd ?e)" using e by (rule hd_dropWhile)
  moreover have "hd (trimASCII s) = last ?e" using e by (simp add: trimASCII_def hd_rev)
  moreover have "last ?e = last (rev ?d)" using e by (rule last_dropWhile_eq)
  moreover have "last (rev ?d) = hd ?d" using d by (simp add: last_rev)
  moreover have "\<not> asciiSpace (hd ?d)" using d by (rule hd_dropWhile)
  ultimately show ?thesis by simp
qed

lemma trimASCII_snoc:
  assumes "asciiSpace c"
  shows "trimASCII (s @ [c]) = trimASCII s"
proof (cases "\<forall>x \<in> set s. asciiSpace x")
  case True
  then have "dropWhile asciiSpace s = []" by simp
  moreover from True assms have "dropWhile asciiSpace (s @ [c]) = []" by simp
  ultimately show ?thesis by (simp only: trimASCII_def)
next
  case False
  then obtain x where "x \<in> set s" and "\<not> asciiSpace x" by blast
  then have "dropWhile asciiSpace (s @ [c]) = dropWhile asciiSpace s @ [c]"
    by (rule dropWhile_append1)
  then show ?thesis using assms by (simp add: trimASCII_def)
qed

lemma trimASCII_dropCR: "trimASCII (dropCR l) = trimASCII l"
proof (cases "l \<noteq> [] \<and> last l = CR")
  case True
  then have "l = butlast l @ [CR]" by (metis append_butlast_last_id)
  moreover have "asciiSpace CR" by (simp add: asciiSpace_def CR_def)
  ultimately have "trimASCII l = trimASCII (butlast l)" using trimASCII_snoc by metis
  with True show ?thesis by (simp add: dropCR_def)
next
  case False
  then show ?thesis by (auto simp: dropCR_def)
qed

lemma set_dropCR: "set (dropCR l) \<subseteq> set l"
  by (auto simp: dropCR_def dest: in_set_butlastD)

lemma set_trimASCII: "set (trimASCII s) \<subseteq> set s"
proof -
  have "set (trimASCII s) \<subseteq> set (dropWhile asciiSpace s)"
    unfolding trimASCII_def set_rev using set_dropWhileD by fastforce
  moreover have "set (dropWhile asciiSpace s) \<subseteq> set s"
    using set_dropWhileD by fastforce
  ultimately show ?thesis by blast
qed

text \<open>A line of ASCII bytes is trimmed and mapped by the ASCII paths.\<close>

lemma state_ascii:
  assumes "\<forall>c \<in> set l. (of_char c :: nat) < 0x80"
  shows "ToUpper tb (TrimSpace (dropCR l)) = upperASCII (trimASCII l)"
proof -
  from assms set_dropCR [of l] have d: "\<forall>c \<in> set (dropCR l). (of_char c :: nat) < 0x80" by blast
  with set_trimASCII [of "dropCR l"]
  have t: "\<forall>c \<in> set (trimASCII (dropCR l)). (of_char c :: nat) < 0x80" by blast
  have "ToUpper tb (TrimSpace (dropCR l)) = ToUpper tb (trimASCII (dropCR l))"
    by (simp only: TrimSpace_ascii [OF d])
  also have "\<dots> = upperASCII (trimASCII (dropCR l))" by (rule ToUpper_ascii [OF t])
  also have "\<dots> = upperASCII (trimASCII l)" by (simp only: trimASCII_dropCR)
  finally show ?thesis .
qed

subsection \<open>A pass that returns no error read every pool\<close>

lemma poolLoop_success:
  "poolLoop tb fs m ms = Return (None, m') \<Longrightarrow> p \<in> set ms
   \<Longrightarrow> \<exists>s. updatePoolStats tb fs (Dir p) = Return (s, None)"
proof (induction ms arbitrary: m)
  case Nil
  then show ?case by simp
next
  case (Cons q qs)
  show ?case
  proof (cases "updatePoolStats tb fs (Dir q)")
    case (Panic i n)
    with Cons.prems show ?thesis by (simp add: Let_def)
  next
    case (Return res)
    obtain s eo where res: "res = (s, eo)" by (cases res)
    show ?thesis
    proof (cases eo)
      case None
      with Return res Cons.prems
      have l: "poolLoop tb fs (m(Base (Dir q) \<mapsto> s)) qs = Return (None, m')" by (simp add: Let_def)
      show ?thesis
      proof (cases "p = q")
        case True
        with Return res None show ?thesis by simp
      next
        case False
        with Cons.prems have "p \<in> set qs" by simp
        with Cons.IH [OF l] show ?thesis by simp
      qed
    next
      case (Some err)
      with Return res Cons.prems show ?thesis by (simp add: Let_def)
    qed
  qed
qed

lemma Collect_success:
  assumes "Collect_zfs tb fs r ws = Return (None, r', ws')"
    and "fsGlob fs (Join [zfsProcBasePath, zfsPoolPathPattern]) = Inr ms"
    and "p \<in> set ms"
  shows "\<exists>s. updatePoolStats tb fs (Dir p) = Return (s, None)"
proof -
  obtain e r1 ws1 where g: "collectGlobal fs zfsProcBasePath r ws = (e, r1, ws1)"
    by (cases "collectGlobal fs zfsProcBasePath r ws") auto
  from g collectGlobal_returns_nil [of fs zfsProcBasePath r ws] have e: "e = None" by simp
  from assms(1) g e have c: "collectPools tb fs zfsProcBasePath r1 = Return (None, r')"
    by (simp add: Collect_zfs_def split: outcome.splits option.splits prod.splits)
  from assms(3) obtain x xs where ms: "ms = x # xs" by (cases ms) auto
  with assms(2) have "Glob fs (Join [zfsProcBasePath, zfsPoolPathPattern]) = Inr (Some ms)"
    by (simp add: Glob_def)
  with c obtain m where "poolLoop tb fs Map.empty ms = Return (None, m)"
    by (auto simp: collectPools_def split: outcome.splits)
  from poolLoop_success [OF this assms(3)] show ?thesis .
qed

lemma updatePoolStats_state_error:
  assumes "fsOpen fs (Join [poolPath, ''state'']) = Inr rd"
    and "snd (parsePoolState tb rd) = Some err"
  shows "updatePoolStats tb fs poolPath \<noteq> Return (s, None)"
  using assms
  by (cases "parsePoolState tb rd")
     (auto simp: updatePoolStats_def split: sum.splits)

lemma scanTokens_too_long:
  assumes "content rd \<noteq> []"
    and "MaxScanTokenSize \<le> length (takeWhile (\<lambda>c. c \<noteq> LF) (content rd))"
  shows "scanTokens rd = [] \<and> scanErr rd = Some ErrTooLong"
proof -
  define l where "l = takeWhile (\<lambda>c. c \<noteq> LF) (content rd)"
  from assms(1) obtain c cs where c: "content rd = c # cs" by (cases "content rd") auto
  have "rawLines (c # cs) = takeWhile (\<lambda>x. x \<noteq> LF) (c # cs)
          # rawLines (drop 1 (dropWhile (\<lambda>x. x \<noteq> LF) (c # cs)))"
    by (rule rawLines.simps)
  then obtain R where r: "rawLines (content rd) = l # R" unfolding l_def c by blast
  from assms(2) have n: "\<not> length l < MaxScanTokenSize" by (simp only: l_def not_less)
  then have "scanTokens rd = []" by (simp add: scanTokens_def r)
  moreover from n have "scanErr rd = Some ErrTooLong" by (auto simp: scanErr_def r)
  ultimately show ?thesis by simp
qed

lemma parsePoolState_too_long:
  assumes "content rd \<noteq> []"
    and "MaxScanTokenSize \<le> length (takeWhile (\<lambda>c. c \<noteq> LF) (content rd))"
  shows "parsePoolState tb rd = ([], Some (StateReadFailed ErrTooLong))"
  using scanTokens_too_long [OF assms] by (simp add: parsePoolState_def)

lemma parsePoolState_empty:
  "content rd = [] \<Longrightarrow> parsePoolState tb rd
     = ([], Some (case failure rd of None \<Rightarrow> StateEOF | Some msg \<Rightarrow> StateReadFailed msg))"
  using scanTokens_empty [of rd] by (simp add: parsePoolState_def split: option.split)

lemma stateLongLine_first:
  "content stateLongLine \<noteq> []
   \<and> takeWhile (\<lambda>c. c \<noteq> LF) (content stateLongLine) = replicate 65536 (CHR ''a'')"
proof -
  have c: "content stateLongLine = replicate 65536 (CHR ''a'') @ [LF]"
    by (simp only: stateLongLine_def reader.sel)
  have "\<And>x. x \<in> set (replicate 65536 (CHR ''a'')) \<Longrightarrow> x \<noteq> LF"
    by (simp only: in_set_replicate) (simp add: LF_def)
  then have "takeWhile (\<lambda>c. c \<noteq> LF) (replicate 65536 (CHR ''a'') @ [LF])
               = replicate 65536 (CHR ''a'') @ takeWhile (\<lambda>c. c \<noteq> LF) [LF]"
    by (rule takeWhile_append2)
  also have "takeWhile (\<lambda>c. c \<noteq> LF) [LF] = []" by (simp only: takeWhile.simps) simp
  finally have "takeWhile (\<lambda>c. c \<noteq> LF) (content stateLongLine) = replicate 65536 (CHR ''a'')"
    by (simp only: c append_Nil2)
  moreover have "content stateLongLine \<noteq> []" by (simp only: c) simp
  ultimately show ?thesis by (rule conjI [rotated])
qed

lemma stateLongLine_result:
  "parsePoolState tb stateLongLine = ([], Some (StateReadFailed ErrTooLong))"
proof (rule parsePoolState_too_long)
  show "content stateLongLine \<noteq> []" using stateLongLine_first by (rule conjunct1)
  have "length (takeWhile (\<lambda>c. c \<noteq> LF) (content stateLongLine)) = 65536"
    by (simp only: stateLongLine_first length_replicate)
  then show "MaxScanTokenSize \<le> length (takeWhile (\<lambda>c. c \<noteq> LF) (content stateLongLine))"
    by (simp add: MaxScanTokenSize_def)
qed

text \<open>
  Claim C9 as stated fails: the first line of 65536 bytes exists, and the call returns the
  error of the scanner, "token too long", instead of the line; and a read that fails with
  the text EOF on an empty stream gives the very error of the empty file.
\<close>

theorem parsePoolState_long_line_counterexample:
  "stateLongLine = Reader (replicate 65536 (CHR ''a'') @ [LF]) None
   \<and> parsePoolState latin1Upper stateLongLine = ([], Some (StateReadFailed ErrTooLong))
   \<and> parsePoolState latin1Upper (Reader [] (Some ''EOF''))
       = parsePoolState latin1Upper (Reader [] None)"
proof -
  have "parsePoolState latin1Upper (Reader [] (Some ''EOF'')) = ([], Some (StateReadFailed ''EOF''))"
    using parsePoolState_empty [of "Reader [] (Some ''EOF'')" latin1Upper] by simp
  moreover have "parsePoolState latin1Upper (Reader [] None) = ([], Some (StateReadFailed ''EOF''))"
    using parsePoolState_empty [of "Reader [] None" latin1Upper] by (simp add: StateEOF_def)
  ultimately show ?thesis using stateLongLine_result [of latin1Upper]
    by (simp only: stateLongLine_def)
qed

text \<open>
  Claim C9 as amended. Let the first line be the bytes of the stream before its first line
  feed. Where the stream is not empty and the first line is shorter than 65536 bytes,
  \<open>parsePoolState\<close> returns no error and the line, without a carriage return at its end,
  with the Unicode white space at both ends trimmed and every code point mapped to upper
  case; where all bytes of the line are ASCII this is the line with the ASCII white space
  at both ends removed and the letters a to z replaced by A to Z, so the text returned has
  no letter a to z and neither starts nor ends with white space. Two spaces, \<open>online\<close>
  and a line feed give \<open>ONLINE\<close>. Where the first line has 65536 bytes or more the
  call returns the read error of the scanner (token too long). An empty stream that ends
  without a read error gives the error "could not read state: EOF", one that ends with a
  read error gives "could not read state:" with the text of that error, which is another
  error unless that text is EOF itself. With an error for the state file of a discovered
  pool the pass never returns without an error.
\<close>

theorem parsePoolState_first_line:
  assumes "line = takeWhile (\<lambda>c. c \<noteq> LF) (content rd)"
  shows "(content rd \<noteq> [] \<and> length line < MaxScanTokenSize
            \<longrightarrow> parsePoolState tb rd = (ToUpper tb (TrimSpace (dropCR line)), None))
    \<and> (content rd \<noteq> [] \<and> length line < MaxScanTokenSize
          \<and> (\<forall>c \<in> set line. (of_char c :: nat) < 0x80)
        \<longrightarrow> fst (parsePoolState tb rd) = upperASCII (trimASCII line)
          \<and> (\<forall>c \<in> set (fst (parsePoolState tb rd)).
                \<not> (0x61 \<le> (of_char c :: nat) \<and> (of_char c :: nat) \<le> 0x7A))
          \<and> (fst (parsePoolState tb rd) \<noteq> []
                \<longrightarrow> \<not> asciiSpace (hd (fst (parsePoolState tb rd)))
                  \<and> \<not> asciiSpace (last (fst (parsePoolState tb rd)))))
    \<and> (content rd \<noteq> [] \<and> MaxScanTokenSize \<le> length line
        \<longrightarrow> parsePoolState tb rd = ([], Some (StateReadFailed ErrTooLong)))
    \<and> parsePoolState tb (Reader (''  online'' @ [LF]) None) = (''ONLINE'', None)
    \<and> (content rd = [] \<and> failure rd = None \<longrightarrow> parsePoolState tb rd = ([], Some StateEOF))
    \<and> (content rd = [] \<and> failure rd = Some msg
        \<longrightarrow> parsePoolState tb rd = ([], Some (StateReadFailed msg)))
    \<and> ((StateReadFailed msg = StateEOF) = (msg = ''EOF''))
    \<and> (fsGlob fs (Join [zfsProcBasePath, zfsPoolPathPattern]) = Inr ms \<and> p \<in> set ms
        \<and> fsOpen fs (Join [Dir p, ''state'']) = Inr rd \<and> snd (parsePoolState tb rd) = Some err
        \<longrightarrow> (\<forall>r ws r' ws'. Collect_zfs tb fs r ws \<noteq> Return (None, r', ws')))"
proof -
  have first: "parsePoolState tb rd = (ToUpper tb (TrimSpace (dropCR line)), None)"
    if "content rd \<noteq> []" and "length line < MaxScanTokenSize"
  proof -
    from scanTokens_first [OF that(1)] that(2) assms obtain rest
      where "scanTokens rd = dropCR line # rest" by auto
    then show ?thesis by (simp add: parsePoolState_def)
  qed
  have ascii: "fst (parsePoolState tb rd) = upperASCII (trimASCII line)
          \<and> (\<forall>c \<in> set (fst (parsePoolState tb rd)).
                \<not> (0x61 \<le> (of_char c :: nat) \<and> (of_char c :: nat) \<le> 0x7A))
          \<and> (fst (parsePoolState tb rd) \<noteq> []
                \<longrightarrow> \<not> asciiSpace (hd (fst (parsePoolState tb rd)))
                  \<and> \<not> asciiSpace (last (fst (parsePoolState tb rd))))"
    if a: "content rd \<noteq> []" and b: "length line < MaxScanTokenSize"
      and c: "\<forall>c \<in> set line. (of_char c :: nat) < 0x80"
  proof -
    have eq: "fst (parsePoolState tb rd) = upperASCII (trimASCII line)"
      by (simp add: first [OF a b] state_ascii [OF c])
    have lower: "\<forall>c \<in> set (upperASCII (trimASCII line)).
                \<not> (0x61 \<le> (of_char c :: nat) \<and> (of_char c :: nat) \<le> 0x7A)"
      unfolding upperASCII_def using asciiUpper_not_lower by auto
    have ends: "\<not> asciiSpace (hd (upperASCII (trimASCII line)))
                  \<and> \<not> asciiSpace (last (upperASCII (trimASCII line)))"
      if "upperASCII (trimASCII line) \<noteq> []"
    proof -
      from that have n: "trimASCII line \<noteq> []" by (simp add: upperASCII_def)
      with trimASCII_ends [OF n] show ?thesis
        by (simp add: upperASCII_def hd_map last_map asciiSpace_asciiUpper)
    qed
    from eq lower ends show ?thesis by simp
  qed
  have long: "parsePoolState tb rd = ([], Some (StateReadFailed ErrTooLong))"
    if "content rd \<noteq> []" and "MaxScanTokenSize \<le> length line"
    using that assms parsePoolState_too_long [of rd tb] by simp
  have online: "parsePoolState tb (Reader (''  online'' @ [LF]) None) = (''ONLINE'', None)"
    by (simp add: parsePoolState_def eval_defs)
  have eof: "parsePoolState tb rd = ([], Some StateEOF)" if "content rd = []" and "failure rd = None"
    using that parsePoolState_empty [of rd tb] by simp
  have rerr: "parsePoolState tb rd = ([], Some (StateReadFailed msg))"
    if "content rd = []" and "failure rd = Some msg"
    using that parsePoolState_empty [of rd tb] by simp
  have same: "(StateReadFailed msg = StateEOF) = (msg = ''EOF'')"
    by (simp add: StateEOF_def)
  have abort: "Collect_zfs tb fs r ws \<noteq> Return (None, r', ws')"
    if g: "fsGlob fs (Join [zfsProcBasePath, zfsPoolPathPattern]) = Inr ms" and p: "p \<in> set ms"
      and o: "fsOpen fs (Join [Dir p, ''state'']) = Inr rd"
      and e: "snd (parsePoolState tb rd) = Some err" for r ws r' ws'
  proof
    assume "Collect_zfs tb fs r ws = Return (None, r', ws')"
    from Collect_success [OF this g p] obtain s
      where "updatePoolStats tb fs (Dir p) = Return (s, None)" ..
    with updatePoolStats_state_error [OF o e, of s] show False by blast
  qed
  have c1: "content rd \<noteq> [] \<and> length line < MaxScanTokenSize
            \<longrightarrow> parsePoolState tb rd = (ToUpper tb (TrimSpace (dropCR line)), None)"
    using first by blast
  have c2: "content rd \<noteq> [] \<and> length line < MaxScanTokenSize
          \<and> (\<forall>c \<in> set line. (of_char c :: nat) < 0x80)
        \<longrightarrow> fst (parsePoolState tb rd) = upperASCII (trimASCII line)
          \<and> (\<forall>c \<in> set (fst (parsePoolState tb rd)).
                \<not> (0x61 \<le> (of_char c :: nat) \<and> (of_char c :: nat) \<le> 0x7A))
          \<and> (fst (parsePoolState tb rd) \<noteq> []
                \<longrightarrow> \<not> asciiSpace (hd (fst (parsePoolState tb rd)))
                  \<and> \<not> asciiSpace (last (fst (parsePoolState tb rd))))"
    using ascii by blast
  have c3: "content rd \<noteq> [] \<and> MaxScanTokenSize \<le> length line
        \<longrightarrow> parsePoolState tb rd = ([], Some (StateReadFailed ErrTooLong))"
    using long by blast
  have c5: "content rd = [] \<and> failure rd = None \<longrightarrow> parsePoolState tb rd = ([], Some StateEOF)"
    using eof by blast
  have c6: "content rd = [] \<and> failure rd = Some msg
        \<longrightarrow> parsePoolState tb rd = ([], Some (StateReadFailed msg))"
    using rerr by blast
  have c8: "fsGlob fs (Join [zfsProcBasePath, zfsPoolPathPattern]) = Inr ms \<and> p \<in> set ms
        \<and> fsOpen fs (Join [Dir p, ''state'']) = Inr rd \<and> snd (parsePoolState tb rd) = Some err
        \<longrightarrow> (\<forall>r ws r' ws'. Collect_zfs tb fs r ws \<noteq> Return (None, r', ws'))"
    using abort by blast
  show ?thesis
    by (rule conjI [OF c1 conjI [OF c2 conjI [OF c3 conjI [OF online conjI [OF c5
          conjI [OF c6 conjI [OF same c8]]]]]]])
qed

theorem parsePoolState_first_line_witness:
  "parsePoolState latin1Upper (Reader (''degraded '' @ [CR, LF] @ ''x'') None) = (''DEGRADED'', None)
   \<and> parsePoolState latin1Upper stateAccent
       = (''D'' @ [CHR 0xC3, CHR 0x89] @ ''GRAD'' @ [CHR 0xC3, CHR 0x89], None)
   \<and> parsePoolState latin1Upper stateLongLine = ([], Some (StateReadFailed ErrTooLong))
   \<and> parsePoolState latin1Upper (Reader [] None) = ([], Some StateEOF)
   \<and> parsePoolState latin1Upper (Reader [] (Some ''input/output error''))
       = ([], Some (StateReadFailed ''input/output error''))
   \<and> Collect_zfs latin1Upper fsEmptyState rFresh []
       = Return (Some (GatherPoolFailed (GatherStateFailed StateEOF)),
                 rFresh\<lparr>poolStats := Some Map.empty\<rparr>, [GatherArcWarning ENOENT])"
proof -
  let ?rd = "Reader (''degraded '' @ [CR, LF] @ ''x'') None"
  have l1: "takeWhile (\<lambda>c. c \<noteq> LF) (content ?rd) = ''degraded '' @ [CR]"
    by (simp add: LF_def CR_def)
  have h1: "content ?rd \<noteq> [] \<and> length (takeWhile (\<lambda>c. c \<noteq> LF) (content ?rd)) < MaxScanTokenSize
      \<and> (\<forall>c \<in> set (takeWhile (\<lambda>c. c \<noteq> LF) (content ?rd)). (of_char c :: nat) < 0x80)"
    unfolding l1 by (simp add: MaxScanTokenSize_def CR_def)
  note t1 = parsePoolState_first_line [OF refl, where rd = ?rd and tb = latin1Upper]
  from t1 [THEN conjunct1] h1
  have "parsePoolState latin1Upper ?rd
          = (ToUpper latin1Upper (TrimSpace (dropCR (takeWhile (\<lambda>c. c \<noteq> LF) (content ?rd)))), None)"
    by blast
  then have a: "parsePoolState latin1Upper ?rd = (''DEGRADED'', None)"
    unfolding l1 by (simp add: eval_defs)
  from t1 [THEN conjunct2, THEN conjunct1] h1
  have "fst (parsePoolState latin1Upper ?rd)
          = upperASCII (trimASCII (takeWhile (\<lambda>c. c \<noteq> LF) (content ?rd)))"
    by blast
  then have a': "fst (parsePoolState latin1Upper ?rd) = ''DEGRADED''"
    unfolding l1 by (simp add: upperASCII_def trimASCII_def asciiUpper_def asciiSpace_def eval_defs)
  have l2: "takeWhile (\<lambda>c. c \<noteq> LF) (content stateAccent)
              = [CHR 0xC2, CHR 0xA0] @ ''d'' @ [CHR 0xC3, CHR 0xA9] @ ''grad''
                @ [CHR 0xC3, CHR 0xA9] @ [CR]"
    by (simp add: stateAccent_def LF_def CR_def)
  have h2: "content stateAccent \<noteq> []
      \<and> length (takeWhile (\<lambda>c. c \<noteq> LF) (content stateAccent)) < MaxScanTokenSize"
    unfolding l2 by (simp add: MaxScanTokenSize_def stateAccent_def)
  from parsePoolState_first_line [OF refl, where rd = stateAccent and tb = latin1Upper,
      THEN conjunct1] h2
  have "parsePoolState latin1Upper stateAccent
          = (ToUpper latin1Upper (TrimSpace (dropCR (takeWhile (\<lambda>c. c \<noteq> LF) (content stateAccent)))),
             None)"
    by blast
  then have b: "parsePoolState latin1Upper stateAccent
       = (''D'' @ [CHR 0xC3, CHR 0x89] @ ''GRAD'' @ [CHR 0xC3, CHR 0x89], None)"
    unfolding l2 by (simp add: eval_defs)
  have h3: "content stateLongLine \<noteq> []
      \<and> MaxScanTokenSize \<le> length (takeWhile (\<lambda>c. c \<noteq> LF) (content stateLongLine))"
    by (simp only: stateLongLine_first length_replicate) (simp add: MaxScanTokenSize_def stateLongLine_first)
  from parsePoolState_first_line [OF refl, where rd = stateLongLine and tb = latin1Upper,
      THEN conjunct2, THEN conjunct2, THEN conjunct1] h3
  have c: "parsePoolState latin1Upper stateLongLine = ([], Some (StateReadFailed ErrTooLong))"
    by blast
  note t4 = parsePoolState_first_line [OF refl, where rd = "Reader [] None" and tb = latin1Upper
      and fs = fsEmptyState and ms = "[''/proc/spl/kstat/zfs/tank/io'']"
      and p = "''/proc/spl/kstat/zfs/tank/io''" and err = StateEOF]
  from t4 [THEN conjunct2, THEN conjunct2, THEN conjunct2, THEN conjunct2, THEN conjunct1]
  have d: "parsePoolState latin1Upper (Reader [] None) = ([], Some StateEOF)" by simp
  from parsePoolState_first_line [OF refl, where rd = "Reader [] (Some ''input/output error'')"
      and tb = latin1Upper and msg = "''input/output error''",
      THEN conjunct2, THEN conjunct2, THEN conjunct2, THEN conjunct2, THEN conjunct2, THEN conjunct1]
  have e: "parsePoolState latin1Upper (Reader [] (Some ''input/output error''))
       = ([], Some (StateReadFailed ''input/output error''))" by simp
  have g: "fsGlob fsEmptyState (Join [zfsProcBasePath, zfsPoolPathPattern])
             = Inr [''/proc/spl/kstat/zfs/tank/io'']"
    by (simp add: tank_pattern fsEmptyState_def fsOf_def)
  have o: "fsOpen fsEmptyState (Join [Dir ''/proc/spl/kstat/zfs/tank/io'', ''state'']) = Inr (Reader [] None)"
    by (simp add: tank_dir fsEmptyState_def fsOf_def) (simp add: eval_defs)
  from t4 [THEN conjunct2, THEN conjunct2, THEN conjunct2, THEN conjunct2, THEN conjunct2,
      THEN conjunct2, THEN conjunct2] g o d
  have n: "\<forall>r ws r' ws'. Collect_zfs latin1Upper fsEmptyState r ws \<noteq> Return (None, r', ws')"
    by simp
  have f: "Collect_zfs latin1Upper fsEmptyState rFresh []
       = Return (Some (GatherPoolFailed (GatherStateFailed StateEOF)),
                 rFresh\<lparr>poolStats := Some Map.empty\<rparr>, [GatherArcWarning ENOENT])"
  proof -
    have cg: "collectGlobal fsEmptyState zfsProcBasePath rFresh [] = (None, rFresh, [GatherArcWarning ENOENT])"
      by (simp add: collectGlobal_def fsEmptyState_def fsOf_def eval_defs)
    have u: "updatePoolStats latin1Upper fsEmptyState ''/proc/spl/kstat/zfs/tank''
               = Return (zeroPoolStats\<lparr>state := []\<rparr>, Some (GatherStateFailed StateEOF))"
      by (simp add: updatePoolStats_def fsEmptyState_def fsOf_def d) (simp add: eval_defs d)
    have gl: "Glob fsEmptyState ''/proc/spl/kstat/zfs/*/io'' = Inr (Some [''/proc/spl/kstat/zfs/tank/io''])"
      by (simp add: Glob_def fsEmptyState_def fsOf_def)
    have cp: "collectPools latin1Upper fsEmptyState zfsProcBasePath rFresh
               = Return (Some (GatherPoolFailed (GatherStateFailed StateEOF)),
                         rFresh\<lparr>poolStats := Some Map.empty\<rparr>)"
      by (simp add: collectPools_def tank_pattern gl tank_dir u)
    show ?thesis by (simp add: Collect_zfs_def cg cp)
  qed
  from a a' b c d e f n show ?thesis by simp
qed

subsection \<open>Rows shorter than the header\<close>

text \<open>
  Claim C2 (the code departs from it). The claim says that \<open>parsePoolIOStats\<close> returns a
  record or an error for every stream and never reads a field that the line does not
  have. The loop over the captured column names reads \<open>parts[index]\<close> without comparing
  \<open>index\<close> with the length of the line: on a data row of three numeric fields under the
  header of twelve columns the call panics at index 3, and on an empty line at index 0.
\<close>

theorem parsePoolIOStats_short_row_panics:
  "parsePoolIOStats ioShortRow = Panic 3 3 \<and> parsePoolIOStats ioBlankRow = Panic 0 0"
  by (simp add: parsePoolIOStats_def ioShortRow_def ioBlankRow_def assignColumn_def
      eval_defs input_defs)

subsection \<open>The base path of the discovery\<close>

text \<open>
  Claim C3 (the code departs from it). The claim says that the pools discovered are those
  matching the pattern under the base path given to \<open>collectPools\<close>. The pattern is built
  from the constant \<open>zfsProcBasePath\<close> instead: with the pool \<open>tank\<close> under
  \<open>/tmp/zfs\<close> and nothing under the constant path, the pattern of the base path
  \<open>/tmp/zfs\<close> matches the pool, and \<open>collectPools\<close> called with that base path
  discovers no pool and leaves the resource as it was. On every file system the result
  is the one for the constant base path.
\<close>

theorem collectPools_ignores_basePath:
  "fsGlob fsTmp (Join [''/tmp/zfs'', zfsPoolPathPattern]) = Inr [''/tmp/zfs/tank/io'']
   \<and> collectPools tb fsTmp ''/tmp/zfs'' rFresh = Return (None, rFresh)
   \<and> collectPools tb fs basePath r = collectPools tb fs zfsProcBasePath r"
  by (simp add: collectPools_def Glob_def fs_defs eval_defs)

subsection \<open>The map of pools after a failure\<close>

lemma poolLoop_append:
  "poolLoop tb fs m (xs @ ys) =
     (case poolLoop tb fs m xs of
        Return (None, m') \<Rightarrow> poolLoop tb fs m' ys
      | other \<Rightarrow> other)"
  by (induction xs arbitrary: m)
     (simp_all add: Let_def split: outcome.split option.split prod.split)

lemma poolLoop_all_ok:
  "\<forall>p \<in> set ms. \<exists>s. updatePoolStats tb fs (Dir p) = Return (s, None)
   \<Longrightarrow> \<exists>m'. poolLoop tb fs m ms = Return (None, m')"
proof (induction ms arbitrary: m)
  case Nil
  then show ?case by simp
next
  case (Cons p ps)
  then obtain s where s: "updatePoolStats tb fs (Dir p) = Return (s, None)" by auto
  from Cons.prems have "\<forall>p \<in> set ps. \<exists>s. updatePoolStats tb fs (Dir p) = Return (s, None)"
    by simp
  from Cons.IH [OF this, of "m(Base (Dir p) \<mapsto> s)"]
  obtain m' where "poolLoop tb fs (m(Base (Dir p) \<mapsto> s)) ps = Return (None, m')" ..
  with s have "poolLoop tb fs m (p # ps) = Return (None, m')" by (simp add: Let_def)
  then show ?case by blast
qed

lemma poolLoop_lookup:
  "poolLoop tb fs m ms = Return (None, m') \<Longrightarrow> m' n = Some st
   \<Longrightarrow> m n = Some st
       \<or> (\<exists>p \<in> set ms. Base (Dir p) = n \<and> updatePoolStats tb fs (Dir p) = Return (st, None))"
proof (induction ms arbitrary: m)
  case Nil
  then show ?case by simp
next
  case (Cons q qs)
  show ?case
  proof (cases "updatePoolStats tb fs (Dir q)")
    case (Panic i k)
    with Cons.prems show ?thesis by (simp add: Let_def)
  next
    case (Return res)
    obtain s eo where res: "res = (s, eo)" by (cases res)
    show ?thesis
    proof (cases eo)
      case None
      with Return res Cons.prems
      have l: "poolLoop tb fs (m(Base (Dir q) \<mapsto> s)) qs = Return (None, m')" by (simp add: Let_def)
      from Cons.IH [OF l Cons.prems(2)] Return res None show ?thesis
        by (auto split: if_splits)
    next
      case (Some err)
      with Return res Cons.prems show ?thesis by (simp add: Let_def)
    qed
  qed
qed

lemma poolLoop_dom_ok:
  "poolLoop tb fs m ms = Return (None, m') \<Longrightarrow> dom m' = dom m \<union> (\<lambda>p. Base (Dir p)) ` set ms"
proof (induction ms arbitrary: m)
  case Nil
  then show ?case by simp
next
  case (Cons q qs)
  show ?case
  proof (cases "updatePoolStats tb fs (Dir q)")
    case (Panic i k)
    with Cons.prems show ?thesis by (simp add: Let_def)
  next
    case (Return res)
    obtain s eo where res: "res = (s, eo)" by (cases res)
    show ?thesis
    proof (cases eo)
      case None
      with Return res Cons.prems
      have l: "poolLoop tb fs (m(Base (Dir q) \<mapsto> s)) qs = Return (None, m')" by (simp add: Let_def)
      from Cons.IH [OF l] show ?thesis by auto
    next
      case (Some err)
      with Return res Cons.prems show ?thesis by (simp add: Let_def)
    qed
  qed
qed

text \<open>
  Claim C1 as amended. When the discovery succeeds and gathering the statistics of a pool
  returns an error, while all pools before it in the order of the glob were gathered, the
  pass returns that error, wrapped, and the resource holds a new map with exactly the
  pools before the failing one, each with the statistics gathered for it: every key of
  the map is a pool whose two files were opened and parsed, and the pools from the failing
  one on are absent.
\<close>

theorem Collect_failure_keeps_gathered_pools:
  assumes "fsGlob fs (Join [zfsProcBasePath, zfsPoolPathPattern]) = Inr (pre @ bad # post)"
    and "\<forall>p \<in> set pre. \<exists>s. updatePoolStats tb fs (Dir p) = Return (s, None)"
    and "updatePoolStats tb fs (Dir bad) = Return (s, Some err)"
  shows "\<exists>r' ws' m. Collect_zfs tb fs r ws = Return (Some (GatherPoolFailed err), r', ws')
           \<and> poolStats r' = Some m
           \<and> dom m = (\<lambda>p. Base (Dir p)) ` set pre
           \<and> (\<forall>n st. m n = Some st \<longrightarrow>
                (\<exists>p \<in> set pre. Base (Dir p) = n
                   \<and> updatePoolStats tb fs (Dir p) = Return (st, None)))"
proof -
  obtain e r1 ws1 where g: "collectGlobal fs zfsProcBasePath r ws = (e, r1, ws1)"
    by (cases "collectGlobal fs zfsProcBasePath r ws") auto
  from g collectGlobal_returns_nil [of fs zfsProcBasePath r ws] have e: "e = None" by simp
  from poolLoop_all_ok [OF assms(2), of Map.empty]
  obtain m where m: "poolLoop tb fs Map.empty pre = Return (None, m)" ..
  have "poolLoop tb fs Map.empty (pre @ bad # post) = Return (Some (GatherPoolFailed err), m)"
    by (simp add: poolLoop_append m assms(3) Let_def)
  moreover from assms(1)
  have "Glob fs (Join [zfsProcBasePath, zfsPoolPathPattern]) = Inr (Some (pre @ bad # post))"
    by (cases "pre @ bad # post") (simp_all add: Glob_def)
  ultimately have "collectPools tb fs zfsProcBasePath r1
      = Return (Some (GatherPoolFailed err), r1\<lparr>poolStats := Some m\<rparr>)"
    by (simp add: collectPools_def)
  with g e have c: "Collect_zfs tb fs r ws
      = Return (Some (GatherPoolFailed err), r1\<lparr>poolStats := Some m\<rparr>, ws1)"
    by (simp add: Collect_zfs_def)
  from poolLoop_dom_ok [OF m] have d: "dom m = (\<lambda>p. Base (Dir p)) ` set pre" by simp
  have l: "\<forall>n st. m n = Some st \<longrightarrow>
                (\<exists>p \<in> set pre. Base (Dir p) = n
                   \<and> updatePoolStats tb fs (Dir p) = Return (st, None))"
    using poolLoop_lookup [OF m] by simp
  from c d l show ?thesis by simp
qed

lemma two_pools_result:
  "Collect_zfs tb fsTwoPools rFresh []
     = Return (Some (GatherPoolFailed (OpenStateFailed ENOENT)),
               rFresh\<lparr>poolStats := Some (Map.empty(''tank'' \<mapsto> tankStats))\<rparr>,
               [GatherArcWarning ENOENT])"
proof -
  have t: "updatePoolStats tb fsTwoPools ''/proc/spl/kstat/zfs/tank'' = Return (tankStats, None)"
    by (rule tank_updatePoolStats) (simp_all add: fs_defs)
  have z: "updatePoolStats tb fsTwoPools (Dir ''/proc/spl/kstat/zfs/zbad/io'')
             = Return (zeroPoolStats, Some (OpenStateFailed ENOENT))"
    by (simp add: updatePoolStats_def fs_defs eval_defs)
  have g: "collectGlobal fsTwoPools zfsProcBasePath rFresh [] = (None, rFresh, [GatherArcWarning ENOENT])"
    by (simp add: collectGlobal_def fs_defs eval_defs)
  have m: "Glob fsTwoPools ''/proc/spl/kstat/zfs/*/io''
             = Inr (Some [''/proc/spl/kstat/zfs/tank/io'', ''/proc/spl/kstat/zfs/zbad/io''])"
    by (simp add: Glob_def fs_defs)
  have p: "collectPools tb fsTwoPools zfsProcBasePath rFresh
             = Return (Some (GatherPoolFailed (OpenStateFailed ENOENT)),
                       rFresh\<lparr>poolStats := Some (Map.empty(''tank'' \<mapsto> tankStats))\<rparr>)"
    by (simp add: collectPools_def tank_pattern m tank_dir tank_base t z)
  show ?thesis by (simp add: Collect_zfs_def g p)
qed

theorem Collect_failure_keeps_gathered_pools_witness:
  "Collect_zfs latin1Upper fsTwoPools rFresh []
     = Return (Some (GatherPoolFailed (OpenStateFailed ENOENT)),
               rFresh\<lparr>poolStats := Some (Map.empty(''tank'' \<mapsto> tankStats))\<rparr>,
               [GatherArcWarning ENOENT])
   \<and> dom (Map.empty(''tank'' \<mapsto> tankStats)) = (\<lambda>p. Base (Dir p)) ` set [''/proc/spl/kstat/zfs/tank/io'']"
proof -
  have g: "fsGlob fsTwoPools (Join [zfsProcBasePath, zfsPoolPathPattern])
             = Inr ([''/proc/spl/kstat/zfs/tank/io''] @ ''/proc/spl/kstat/zfs/zbad/io'' # [])"
    by (simp add: tank_pattern fs_defs)
  have t: "updatePoolStats latin1Upper fsTwoPools ''/proc/spl/kstat/zfs/tank'' = Return (tankStats, None)"
    by (rule tank_updatePoolStats) (simp_all add: fs_defs)
  then have ok: "\<forall>p \<in> set [''/proc/spl/kstat/zfs/tank/io''].
                  \<exists>s. updatePoolStats latin1Upper fsTwoPools (Dir p) = Return (s, None)"
    by (simp add: tank_dir)
  have z: "updatePoolStats latin1Upper fsTwoPools (Dir ''/proc/spl/kstat/zfs/zbad/io'')
             = Return (zeroPoolStats, Some (OpenStateFailed ENOENT))"
    by (simp add: updatePoolStats_def fs_defs eval_defs)
  from Collect_failure_keeps_gathered_pools [OF g ok z, of rFresh "[]"]
  obtain r' ws' m where c: "Collect_zfs latin1Upper fsTwoPools rFresh []
        = Return (Some (GatherPoolFailed (OpenStateFailed ENOENT)), r', ws')"
    and p: "poolStats r' = Some m"
    and d: "dom m = (\<lambda>p. Base (Dir p)) ` set [''/proc/spl/kstat/zfs/tank/io'']"
    by blast
  from c two_pools_result have "r' = rFresh\<lparr>poolStats := Some (Map.empty(''tank'' \<mapsto> tankStats))\<rparr>"
    by simp
  with p have "m = Map.empty(''tank'' \<mapsto> tankStats)" by simp
  with d two_pools_result show ?thesis by simp
qed

text \<open>
  Claim C1 as stated fails: with the two pools \<open>tank\<close> and \<open>zbad\<close> discovered and the
  state file of \<open>zbad\<close> missing, the pass returns an error and the resource holds a map
  with the pool \<open>tank\<close> alone.
\<close>

theorem Collect_partial_map_counterexample:
  "fsGlob fsTwoPools (Join [zfsProcBasePath, zfsPoolPathPattern])
     = Inr [''/proc/spl/kstat/zfs/tank/io'', ''/proc/spl/kstat/zfs/zbad/io'']
   \<and> Collect_zfs latin1Upper fsTwoPools rFresh []
     = Return (Some (GatherPoolFailed (OpenStateFailed ENOENT)),
               rFresh\<lparr>poolStats := Some (Map.empty(''tank'' \<mapsto> tankStats))\<rparr>,
               [GatherArcWarning ENOENT])
   \<and> Base (Dir ''/proc/spl/kstat/zfs/zbad/io'') = ''zbad''
   \<and> (Map.empty(''tank'' \<mapsto> tankStats)) ''zbad'' = None"
  using two_pools_result by (simp add: tank_pattern fs_defs) (simp add: eval_defs)

subsection \<open>Rows of the I/O table\<close>














subsection \<open>Rows of the global statistics\<close>















end
